theory Spec2Isabelle
  imports Complex_Main "HOL-Library.Sublist"
begin

section \<open>Strings\<close>

text \<open>
  A JavaScript string is modelled as a HOL \<open>string\<close>, one \<open>char\<close> per code unit, for
  code units in the range 0..255. The string methods the search code calls are written out
  for that range: \<open>\s\<close> and \<open>trim\<close> treat TAB, LF, VT, FF, CR, SPACE and NBSP as
  white space, and \<open>toLowerCase\<close> maps A-Z and the Latin-1 capitals to their small letters.
\<close>

definition is_space :: "char \<Rightarrow> bool" where
  "is_space c = ((of_char c :: nat) \<in> set [9, 10, 11, 12, 13, 32, 160])"

definition lower_char :: "char \<Rightarrow> char" where
  "lower_char c = (let n = (of_char c :: nat) in
     if (65 \<le> n \<and> n \<le> 90) \<or> (192 \<le> n \<and> n \<le> 222 \<and> n \<noteq> 215)
     then char_of (n + 32) else c)"

definition toLowerCase :: "string \<Rightarrow> string" where
  "toLowerCase s = map lower_char s"

text \<open>\<open>s.includes(t)\<close> (the name is a keyword of Isabelle) and \<open>s.startsWith(p)\<close>.\<close>

definition str_includes :: "string \<Rightarrow> string \<Rightarrow> bool" where
  "str_includes s t = sublist t s"

definition startsWith :: "string \<Rightarrow> string \<Rightarrow> bool" where
  "startsWith s p = prefix p s"

definition trim :: "string \<Rightarrow> string" where
  "trim s = rev (dropWhile is_space (rev (dropWhile is_space s)))"

text \<open>\<open>s.substring(0, n)\<close> for a constant \<open>n \<ge> 0\<close>.\<close>

definition substring0 :: "string \<Rightarrow> nat \<Rightarrow> string" where
  "substring0 s n = take n s"

text \<open>
  \<open>s.split(/\s+/)\<close>: the pieces between maximal runs of white space, the empty pieces at
  the two ends included. The flag says that the scan is inside a separator.
\<close>

fun split_aux :: "bool \<Rightarrow> string \<Rightarrow> string \<Rightarrow> string list" where
  "split_aux insep cur [] = [rev cur]"
| "split_aux insep cur (c # cs) =
     (if is_space c then
        (if insep then split_aux True [] cs else rev cur # split_aux True [] cs)
      else split_aux False (c # cur) cs)"

definition split_ws :: "string \<Rightarrow> string list" where
  "split_ws s = split_aux False [] s"

text \<open>\<open>s.replace(/\s+/g, ' ')\<close>: every maximal run of white space becomes one space.\<close>

fun replace_aux :: "bool \<Rightarrow> string \<Rightarrow> string" where
  "replace_aux insep [] = []"
| "replace_aux insep (c # cs) =
     (if is_space c then
        (if insep then replace_aux True cs else CHR '' '' # replace_aux True cs)
      else c # replace_aux False cs)"

definition replace_ws :: "string \<Rightarrow> string" where
  "replace_ws s = replace_aux False s"

text \<open>
  \<open>s.match(/\(([^)]+)\)/)\<close>, reduced to its capture group: at the leftmost opening
  parenthesis that is followed by at least one character other than a closing parenthesis
  and then by a closing parenthesis, the characters in between.
\<close>

definition paren_group :: "string \<Rightarrow> string option" where
  "paren_group rest =
     (let g = takeWhile (\<lambda>c. c \<noteq> CHR '')'') rest
      in if g \<noteq> [] \<and> length g < length rest then Some g else None)"

fun match_paren :: "string \<Rightarrow> string option" where
  "match_paren [] = None"
| "match_paren (c # cs) =
     (if c = CHR ''(''
      then (case paren_group cs of Some g \<Rightarrow> Some g | None \<Rightarrow> match_paren cs)
      else match_paren cs)"

text \<open>
  The limit of a search is a JavaScript number. The model takes the finite numbers, which are
  rational (\<open>NaN\<close> and the two infinities are not modelled); the comparisons of
  \<open>results.length\<close> with the limit are comparisons of rational numbers.

  \<open>xs.slice(0, n)\<close> first truncates \<open>n\<close> towards zero; a negative end then counts from
  the end of the array.
\<close>

definition to_integer :: "rat \<Rightarrow> int" where
  "to_integer n = (if n < 0 then - \<lfloor>- n\<rfloor> else \<lfloor>n\<rfloor>)"

definition slice0 :: "'a list \<Rightarrow> rat \<Rightarrow> 'a list" where
  "slice0 xs n =
     (let k = to_integer n
      in if k < 0 then take (length xs - nat (- k)) xs else take (nat k) xs)"

section \<open>Results and the search index\<close>

record SearchResult =
  title :: string
  url :: string
  snippet :: string
  type :: string

definition AUTOGEN_BASE_URL :: string where
  "AUTOGEN_BASE_URL = ''https://microsoft.github.io/autogen''"

definition getVersionUrl :: "string \<Rightarrow> string" where
  "getVersionUrl version = AUTOGEN_BASE_URL @ ''/'' @ version"

text \<open>
  An exception that the search code can meet: a rejected \<open>fetch\<close>, a rejected
  \<open>response.text()\<close>, \<open>JSON.parse\<close> on a malformed text, a method call on a value that
  is not a string, \<open>encodeURIComponent\<close> on a string with a lone surrogate.
\<close>

datatype exn = FetchError | BodyError | SyntaxError | TypeError | URIError

text \<open>
  The parsed index is whatever \<open>JSON.parse\<close> returned. The search reads its properties
  \<open>titles\<close> and \<open>docnames\<close> through their truth value, their \<open>length\<close> and their
  elements \<open>[i]\<close>, and the model holds what these reads give. \<open>None\<close> is a property that
  is falsy: missing, \<open>null\<close>, \<open>false\<close>, \<open>0\<close> or the empty string; so is every property
  of a parsed value that is not an object, and reading a property of \<open>null\<close> raises inside
  the \<open>try\<close> of the search, with the same empty result. \<open>Some xs\<close> is a truthy
  property: \<open>xs\<close> lists the elements \<open>[0]\<close>, \<open>[1]\<close>, ... below its \<open>length\<close>, each a
  string or some other value. An array is the list of its elements, a JSON string is the list
  of its one-character strings, and a value without a numeric \<open>length\<close> (a number,
  \<open>true\<close>, a plain object) is the empty list. An index beyond the end reads
  \<open>undefined\<close>, which is not a string.
\<close>

datatype jsval = JStr string | JNonStr

record search_index =
  titles :: "jsval list option"
  docnames :: "jsval list option"

fun js_head :: "jsval list \<Rightarrow> jsval" where
  "js_head [] = JNonStr"
| "js_head (d # ds) = d"

definition doc_score :: "string list \<Rightarrow> string \<Rightarrow> string \<Rightarrow> nat" where
  "doc_score queryTerms titleLower docnameLower =
     fold (\<lambda>term score.
             (score + (if str_includes titleLower term then 3 else 0))
                    + (if str_includes docnameLower term then 2 else 0))
          queryTerms 0"

definition doc_type :: "string \<Rightarrow> string" where
  "doc_type docname =
     (if str_includes docname ''python/'' then ''API Reference''
      else if str_includes docname ''user-guide/'' then ''User Guide''
      else if str_includes docname ''tutorials/'' then ''Tutorial''
      else if str_includes docname ''components/'' then ''Core Guide''
      else ''Documentation'')"

text \<open>
  The loop over the index. \<open>ts\<close> is \<open>titles\<close> from position \<open>i\<close> on and \<open>ds\<close> is
  \<open>docnames\<close> from position \<open>i\<close> on. The loop ends when the titles end or when
  \<open>limit\<close> results are collected; a title or document name that is not a string raises
  a \<open>TypeError\<close>, and the results pushed before it stay in the array.
\<close>

fun index_loop ::
  "string list \<Rightarrow> string \<Rightarrow> rat \<Rightarrow> jsval list \<Rightarrow> jsval list \<Rightarrow> SearchResult list
     \<Rightarrow> SearchResult list \<times> exn option" where
  "index_loop queryTerms baseUrl limit [] ds results = (results, None)"
| "index_loop queryTerms baseUrl limit (t # ts) ds results =
     (if of_nat (length results) < limit then
        (case t of
           JNonStr \<Rightarrow> (results, Some TypeError)
         | JStr title_i \<Rightarrow>
            (case js_head ds of
               JNonStr \<Rightarrow> (results, Some TypeError)
             | JStr docname \<Rightarrow>
                (if doc_score queryTerms (toLowerCase title_i) (toLowerCase docname) > 0
                 then index_loop queryTerms baseUrl limit ts (tl ds)
                        (results @ [\<lparr>title = title_i,
                                      url = baseUrl @ ''/'' @ docname @ ''.html'',
                                      snippet = doc_type docname,
                                      type = doc_type docname\<rparr>])
                 else index_loop queryTerms baseUrl limit ts (tl ds) results)))
      else (results, None))"

text \<open>
  The comparator of the final sort counts the query terms that occur in the title;
  \<open>Array.prototype.sort\<close> is stable, so the sort is a stable sort on the negated count.
\<close>

definition title_matches :: "string list \<Rightarrow> SearchResult \<Rightarrow> nat" where
  "title_matches queryTerms a =
     fold (\<lambda>term count. count + (if str_includes (toLowerCase (title a)) term then 1 else 0))
          queryTerms 0"

definition sort_results :: "string list \<Rightarrow> SearchResult list \<Rightarrow> SearchResult list" where
  "sort_results queryTerms results =
     sort_key (\<lambda>a. - int (title_matches queryTerms a)) results"

definition query_terms :: "string \<Rightarrow> string list" where
  "query_terms query = filter (\<lambda>term. length term > 0) (split_ws (toLowerCase query))"

definition performIndexSearch ::
  "search_index \<Rightarrow> string \<Rightarrow> string \<Rightarrow> rat \<Rightarrow> SearchResult list" where
  "performIndexSearch searchData query baseUrl limit =
     (let queryTerms = query_terms query;
          results =
            (case titles searchData of
               None \<Rightarrow> []
             | Some ts \<Rightarrow>
                (case docnames searchData of
                   None \<Rightarrow> []
                 | Some ds \<Rightarrow>
                    (case index_loop queryTerms baseUrl limit ts ds [] of
                       (rs, None) \<Rightarrow> sort_results queryTerms rs
                     | (rs, Some e) \<Rightarrow> rs)))
      in slice0 results limit)"

section \<open>The remote site and the parsed pages\<close>

text \<open>
  \<open>fetch(url, {headers})\<close> either rejects or resolves to a response with its \<open>ok\<close>
  flag and its body; \<open>None\<close> is a body whose \<open>text()\<close> rejects. Every URL is requested
  at most once in a search, so the site is a function of the URL.
\<close>

record response =
  ok :: bool
  body :: "string option"

text \<open>
  What the search code reads of an element that a cheerio selector returned:
  \<open>element.tagName\<close>, \<open>$(el).text()\<close>, \<open>$(el).attr('id')\<close>, \<open>$(el).attr('href')\<close>,
  the text of \<open>$(el).next()\<close> (\<open>None\<close> when there is no next sibling), the text of
  \<open>$(el).next('p, div')\<close> (empty when the next sibling is no such element), the text and
  \<open>id\<close> of \<open>$(el).prevAll('h1, h2, h3, h4, h5, h6').first()\<close> (\<open>None\<close> when no heading
  precedes), the text of \<open>$(el).parent()\<close> and the text of
  \<open>$(el).parent().siblings()\<close>.
\<close>

record element =
  tagName :: string
  text_of :: string
  attr_id :: "string option"
  attr_href :: "string option"
  next_text :: "string option"
  next_p_div_text :: string
  prev_heading :: "(string \<times> string option) option"
  parent_text :: string
  parent_siblings_text :: string

text \<open>
  A crawled page after \<open>cheerio.load(html)\<close> and \<open>$('script, style').remove()\<close>:
  \<open>$('title').text()\<close>, \<open>$('h1').first().text()\<close>, \<open>$('main, .content, article').text()\<close>,
  \<open>$.text()\<close>, and the elements selected by \<open>'h1, h2, h3, h4, h5, h6'\<close>, by
  \<open>'p, div'\<close>, by \<open>'h1, h2, h3, h4, h5, h6, p, div'\<close> and by \<open>'a[href]'\<close>, each in
  document order.
\<close>

record page_dom =
  title_text :: string
  h1_first_text :: string
  content_text :: string
  root_text :: string
  headings :: "element list"
  blocks :: "element list"
  headings_and_blocks :: "element list"
  links :: "element list"

text \<open>
  The library calls whose results the search code consumes: \<open>fetch\<close>;
  \<open>encodeURIComponent\<close> (\<open>None\<close> when it raises a URIError, as it does on a lone
  surrogate; the strings of the model hold no such code unit, so the function is a parameter
  and every behaviour of it is covered); the first capture
  group of \<open>content.match(/Search\.setIndex\((.*)\);?$/m)\<close> (\<open>None\<close> when there is no
  match); \<open>JSON.parse\<close> (\<open>None\<close> when it raises a SyntaxError); the links
  \<open>$('h2:contains("Searching")').parent().find('a[href]')\<close> of a loaded search page;
  and a loaded documentation page.
\<close>

record site =
  fetch :: "string \<Rightarrow> exn + response"
  encodeURIComponent :: "string \<Rightarrow> string option"
  match_setIndex :: "string \<Rightarrow> string option"
  JSON_parse :: "string \<Rightarrow> search_index option"
  search_section_links :: "string \<Rightarrow> element list"
  load :: "string \<Rightarrow> page_dom"

text \<open>
  \<open>encodeURIComponent\<close> on a string of code units below 256, where it never raises: a code
  unit becomes itself or the escapes of its one or two UTF-8 bytes. The sites of the
  scenarios use it.
\<close>

definition hex_digit :: "nat \<Rightarrow> char" where
  "hex_digit n = ''0123456789ABCDEF'' ! (n mod 16)"

definition percent :: "nat \<Rightarrow> string" where
  "percent n = [CHR ''%'', hex_digit (n div 16), hex_digit n]"

definition uri_unreserved :: "char \<Rightarrow> bool" where
  "uri_unreserved c = (let n = (of_char c :: nat) in
     (65 \<le> n \<and> n \<le> 90) \<or> (97 \<le> n \<and> n \<le> 122) \<or> (48 \<le> n \<and> n \<le> 57)
     \<or> n \<in> set [45, 95, 46, 33, 126, 42, 39, 40, 41])"

definition encode_char :: "char \<Rightarrow> string" where
  "encode_char c = (let n = (of_char c :: nat) in
     if uri_unreserved c then [c]
     else if n < 128 then percent n
     else percent (192 + n div 64) @ percent (128 + n mod 64))"

definition encode_latin1 :: "string \<Rightarrow> string" where
  "encode_latin1 s = concat (map encode_char s)"

section \<open>The search page\<close>

definition DOC_DOMAIN :: string where
  "DOC_DOMAIN = ''microsoft.github.io/autogen''"

text \<open>
  The block that makes a relative URL absolute; the search page and the crawler both have
  it.
\<close>

definition absolute_url :: "string \<Rightarrow> string \<Rightarrow> string" where
  "absolute_url base href =
     (if startsWith href ''/'' then base @ href
      else if \<not> startsWith href ''http'' then base @ ''/'' @ href
      else href)"

text \<open>
  The type and the snippet of a link of the search section: the parenthesis of the
  text of the parent when there is one, otherwise no type and the first 200 characters of
  the trimmed text of the next sibling.
\<close>

definition search_link_type :: "element \<Rightarrow> string" where
  "search_link_type e = (case match_paren (parent_text e) of Some t \<Rightarrow> t | None \<Rightarrow> [])"

definition search_link_snippet :: "element \<Rightarrow> string" where
  "search_link_snippet e =
     (let snippet1 = search_link_type e
      in if snippet1 = [] then
           (case next_text e of Some nt \<Rightarrow> substring0 (trim nt) 200 | None \<Rightarrow> [])
         else snippet1)"

text \<open>
  The \<open>each\<close> callback over the links of the search section: \<open>return false\<close> ends the
  iteration, \<open>return\<close> goes on to the next link.
\<close>

fun search_links_scan ::
  "string \<Rightarrow> rat \<Rightarrow> element list \<Rightarrow> SearchResult list \<Rightarrow> SearchResult list" where
  "search_links_scan baseUrl limit [] results = results"
| "search_links_scan baseUrl limit (e # es) results =
     (if of_nat (length results) \<ge> limit then results
      else
        (let title0 = trim (text_of e) in
         case attr_href e of
           None \<Rightarrow> search_links_scan baseUrl limit es results
         | Some href \<Rightarrow>
            (if href = [] \<or> title0 = [] then search_links_scan baseUrl limit es results
             else
               (let url1 = absolute_url baseUrl href
                in if \<not> str_includes url1 DOC_DOMAIN
                   then search_links_scan baseUrl limit es results
                   else
                     (let snippet1 = search_link_snippet e;
                          title1 = trim (replace_ws title0)
                      in if title1 \<noteq> [] \<and> url1 \<noteq> []
                         then search_links_scan baseUrl limit es
                                (results @ [\<lparr>title = title1, url = url1,
                                   snippet = (if snippet1 = [] then ''AutoGen documentation''
                                              else snippet1),
                                   type = search_link_type e\<rparr>])
                         else search_links_scan baseUrl limit es results)))))"

section \<open>The fallback crawler\<close>

record page_ref =
  page_url :: string
  page_type :: string

definition isMcpQuery :: "string \<Rightarrow> bool" where
  "isMcpQuery queryLower =
     (str_includes queryLower ''mcp'' \<or> str_includes queryLower ''model context protocol''
      \<or> str_includes queryLower ''autogen_ext'')"

definition mcpBaseUrl :: string where
  "mcpBaseUrl = ''https://microsoft.github.io/autogen''"

definition pagesToSearch :: "bool \<Rightarrow> string \<Rightarrow> page_ref list" where
  "pagesToSearch isMcp baseUrl =
     (if isMcp then
        [\<lparr>page_url = mcpBaseUrl @ ''/docs/ecosystem/integrations'', page_type = ''MCP Integrations''\<rparr>,
         \<lparr>page_url = mcpBaseUrl @ ''/docs/reference/agentchat/contrib'', page_type = ''Contrib Modules''\<rparr>,
         \<lparr>page_url = mcpBaseUrl @ ''/docs/ecosystem/community'', page_type = ''Community''\<rparr>,
         \<lparr>page_url = mcpBaseUrl @ ''/docs/tutorial/code-executors'', page_type = ''Code Executors''\<rparr>,
         \<lparr>page_url = mcpBaseUrl @ ''/docs/tutorial/tool-use'', page_type = ''Tool Use''\<rparr>,
         \<lparr>page_url = mcpBaseUrl @ ''/docs/ecosystem/ecosystem'', page_type = ''Ecosystem''\<rparr>,
         \<lparr>page_url = mcpBaseUrl @ ''/docs/Getting-Started'', page_type = ''Getting Started''\<rparr>,
         \<lparr>page_url = mcpBaseUrl @ ''/docs/tutorial/introduction'', page_type = ''Tutorial''\<rparr>,
         \<lparr>page_url = mcpBaseUrl @ ''/docs/Use-Cases/agent_chat'', page_type = ''Agent Chat''\<rparr>,
         \<lparr>page_url = mcpBaseUrl @ ''/docs/Installation'', page_type = ''Installation''\<rparr>,
         \<lparr>page_url = mcpBaseUrl @ ''/docs/FAQ'', page_type = ''FAQ''\<rparr>,
         \<lparr>page_url = mcpBaseUrl @ ''/docs/Migration-Guide'', page_type = ''Migration''\<rparr>,
         \<lparr>page_url = mcpBaseUrl @ ''/blog'', page_type = ''Blog''\<rparr>]
      else
        [\<lparr>page_url = baseUrl @ ''/user-guide/index.html'', page_type = ''User Guide''\<rparr>,
         \<lparr>page_url = baseUrl @ ''/user-guide/core-user-guide/index.html'', page_type = ''Core Guide''\<rparr>,
         \<lparr>page_url = baseUrl @ ''/user-guide/agentchat-user-guide/index.html'', page_type = ''AgentChat Guide''\<rparr>,
         \<lparr>page_url = baseUrl @ ''/reference/index.html'', page_type = ''API Reference''\<rparr>,
         \<lparr>page_url = baseUrl @ ''/reference/agentchat/index.html'', page_type = ''AgentChat API''\<rparr>,
         \<lparr>page_url = baseUrl @ ''/reference/autogen_core/index.html'', page_type = ''Core API''\<rparr>,
         \<lparr>page_url = baseUrl @ ''/tutorials/index.html'', page_type = ''Tutorials''\<rparr>])"

text \<open>\<open>if (id) url += `#${id}`\<close>: an attribute that is missing or empty adds nothing.\<close>

definition with_fragment :: "string \<Rightarrow> string option \<Rightarrow> string" where
  "with_fragment u idopt =
     (case idopt of None \<Rightarrow> u | Some i \<Rightarrow> if i \<noteq> [] then u @ ''#'' @ i else u)"

text \<open>The scan of the headings of a page.\<close>

fun heading_scan ::
  "string \<Rightarrow> rat \<Rightarrow> page_ref \<Rightarrow> element list \<Rightarrow> SearchResult list \<Rightarrow> SearchResult list" where
  "heading_scan queryLower limit page [] results = results"
| "heading_scan queryLower limit page (e # es) results =
     (if of_nat (length results) \<ge> limit then results
      else
        (let headingText = trim (text_of e) in
         if str_includes (toLowerCase headingText) queryLower then
           (let url1 = with_fragment (page_url page) (attr_id e);
                nextContent = trim (next_p_div_text e);
                snippet1 = (if substring0 nextContent 200 \<noteq> [] then substring0 nextContent 200
                            else page_type page @ '': '' @ headingText)
            in heading_scan queryLower limit page es
                 (results @ [\<lparr>title = headingText, url = url1, snippet = snippet1,
                                type = page_type page\<rparr>]))
         else heading_scan queryLower limit page es results))"

text \<open>The scan of the paragraphs and blocks of a page.\<close>

fun block_scan ::
  "string \<Rightarrow> rat \<Rightarrow> page_ref \<Rightarrow> string \<Rightarrow> element list \<Rightarrow> SearchResult list
     \<Rightarrow> SearchResult list" where
  "block_scan queryLower limit page pageTitle [] results = results"
| "block_scan queryLower limit page pageTitle (e # es) results =
     (if of_nat (length results) \<ge> limit then results
      else
        (let text1 = trim (text_of e) in
         if str_includes (toLowerCase text1) queryLower \<and> length text1 > 50 then
           (let title1 = (case prev_heading e of
                            Some (htext, hid) \<Rightarrow> trim htext
                          | None \<Rightarrow> if pageTitle \<noteq> [] then pageTitle
                                    else ''AutoGen Documentation'');
                url1 = with_fragment (page_url page)
                         (case prev_heading e of Some (htext, hid) \<Rightarrow> hid | None \<Rightarrow> None);
                snippet1 = substring0 text1 200;
                isDuplicate = list_ex (\<lambda>result. url result = url1 \<and> title result = title1) results
            in if \<not> isDuplicate
               then block_scan queryLower limit page pageTitle es
                      (results @ [\<lparr>title = title1, url = url1, snippet = snippet1,
                                     type = page_type page\<rparr>])
               else block_scan queryLower limit page pageTitle es results)
         else block_scan queryLower limit page pageTitle es results))"

text \<open>The scan for one related term, run for the queries about MCP.\<close>

fun related_scan ::
  "string \<Rightarrow> rat \<Rightarrow> page_ref \<Rightarrow> element list \<Rightarrow> SearchResult list \<Rightarrow> SearchResult list" where
  "related_scan term limit page [] results = results"
| "related_scan term limit page (e # es) results =
     (if of_nat (length results) \<ge> limit then results
      else
        (let text1 = trim (text_of e) in
         if str_includes (toLowerCase text1) term \<and> length text1 > 20 then
           (let isHeading = (tagName e \<in> set [''H1'', ''H2'', ''H3'', ''H4'', ''H5'', ''H6'']);
                title0 = (if isHeading then text1
                          else (case prev_heading e of
                                  Some (htext, hid) \<Rightarrow> trim htext | None \<Rightarrow> []));
                title1 = (if title0 = [] then page_type page @ '': '' @ term else title0);
                url1 = with_fragment (page_url page) (attr_id e);
                snippet1 = substring0 text1 200;
                isDuplicate = list_ex (\<lambda>result. url result = url1 \<and> title result = title1) results
            in if \<not> isDuplicate
               then related_scan term limit page es
                      (results @ [\<lparr>title = title1, url = url1, snippet = snippet1,
                                     type = page_type page\<rparr>])
               else related_scan term limit page es results)
         else related_scan term limit page es results))"

definition mcpRelatedTerms :: "string list" where
  "mcpRelatedTerms = [''autogen_ext'', ''tools'', ''extensions'', ''contrib'', ''ecosystem'']"

definition related_terms_scan ::
  "rat \<Rightarrow> page_ref \<Rightarrow> page_dom \<Rightarrow> SearchResult list \<Rightarrow> SearchResult list" where
  "related_terms_scan limit page doc results =
     fold (\<lambda>term rs.
             if of_nat (length rs) \<ge> limit then rs
             else if str_includes (toLowerCase (root_text doc)) term
                  then related_scan term limit page (headings_and_blocks doc) rs
                  else rs)
          mcpRelatedTerms results"

text \<open>
  The snippet of a link of a crawled page: the trimmed text of the parent, or of the
  siblings of the parent when that is shorter than 50 characters, cut to 200 characters,
  and a fixed text when nothing is left.
\<close>

definition link_snippet :: "element \<Rightarrow> string" where
  "link_snippet e =
     (let snippet0 = trim (parent_text e);
          snippet1 = (if length snippet0 < 50 then trim (parent_siblings_text e) else snippet0)
      in if substring0 snippet1 200 \<noteq> [] then substring0 snippet1 200
         else ''AutoGen documentation'')"

text \<open>The scan of the links of a page.\<close>

fun link_scan ::
  "bool \<Rightarrow> string \<Rightarrow> rat \<Rightarrow> string \<Rightarrow> page_ref \<Rightarrow> element list \<Rightarrow> SearchResult list
     \<Rightarrow> SearchResult list" where
  "link_scan isMcp queryLower limit baseUrl page [] results = results"
| "link_scan isMcp queryLower limit baseUrl page (e # es) results =
     (if of_nat (length results) \<ge> limit then results
      else
        (let title1 = trim (text_of e) in
         case attr_href e of
           None \<Rightarrow> link_scan isMcp queryLower limit baseUrl page es results
         | Some href \<Rightarrow>
            (if href = [] \<or> title1 = [] \<or> length title1 < 3
             then link_scan isMcp queryLower limit baseUrl page es results
             else
               (let url1 = absolute_url
                             (if isMcp then ''https://microsoft.github.io/autogen'' else baseUrl)
                             href
                in if \<not> str_includes url1 DOC_DOMAIN
                   then link_scan isMcp queryLower limit baseUrl page es results
                   else if str_includes (toLowerCase title1) queryLower
                           \<or> str_includes (toLowerCase url1) queryLower
                   then
                     (let snippet1 = link_snippet e;
                          isDuplicate = list_ex (\<lambda>result. url result = url1 \<or> title result = title1)
                                          results
                      in if \<not> isDuplicate
                         then link_scan isMcp queryLower limit baseUrl page es
                                (results @ [\<lparr>title = title1, url = url1, snippet = snippet1,
                                               type = page_type page\<rparr>])
                         else link_scan isMcp queryLower limit baseUrl page es results)
                   else link_scan isMcp queryLower limit baseUrl page es results))))"

text \<open>All the scans of one loaded page, in the order of the source.\<close>

definition scan_page ::
  "bool \<Rightarrow> string \<Rightarrow> rat \<Rightarrow> string \<Rightarrow> page_ref \<Rightarrow> page_dom \<Rightarrow> SearchResult list
     \<Rightarrow> SearchResult list" where
  "scan_page isMcp queryLower limit baseUrl page doc results =
     (let pageTitle = (if title_text doc \<noteq> [] then title_text doc else h1_first_text doc);
          pageContent = toLowerCase (content_text doc);
          results1 = (if str_includes pageContent queryLower
                      then block_scan queryLower limit page pageTitle (blocks doc)
                             (heading_scan queryLower limit page (headings doc) results)
                      else results);
          results2 = (if isMcp then related_terms_scan limit page doc results1 else results1)
      in link_scan isMcp queryLower limit baseUrl page (links doc) results2)"

text \<open>
  The body of the \<open>try\<close> block for one page. A rejected fetch or body raises before any
  result is pushed; a response that is not ok leaves the results as they are.
\<close>

definition page_body ::
  "site \<Rightarrow> bool \<Rightarrow> string \<Rightarrow> rat \<Rightarrow> string \<Rightarrow> page_ref \<Rightarrow> SearchResult list
     \<Rightarrow> exn + SearchResult list" where
  "page_body env isMcp queryLower limit baseUrl page results =
     (case fetch env (page_url page) of
        Inl e \<Rightarrow> Inl e
      | Inr resp \<Rightarrow>
         (if \<not> ok resp then Inr results
          else (case body resp of
                  None \<Rightarrow> Inl BodyError
                | Some html \<Rightarrow>
                   Inr (scan_page isMcp queryLower limit baseUrl page (load env html) results))))"

text \<open>
  The loop over the pages, with the URLs it requests. The \<open>catch\<close> of a page logs the
  exception and the loop goes on with the results as they were.
\<close>

fun page_loop ::
  "site \<Rightarrow> bool \<Rightarrow> string \<Rightarrow> rat \<Rightarrow> string \<Rightarrow> page_ref list \<Rightarrow> SearchResult list
     \<Rightarrow> SearchResult list \<times> string list" where
  "page_loop env isMcp queryLower limit baseUrl [] results = (results, [])"
| "page_loop env isMcp queryLower limit baseUrl (page # pages) results =
     (if of_nat (length results) \<ge> limit then (results, [])
      else
        (case page_loop env isMcp queryLower limit baseUrl pages
                (case page_body env isMcp queryLower limit baseUrl page results of
                   Inl e \<Rightarrow> results
                 | Inr rs \<Rightarrow> rs) of
           (rs, requested) \<Rightarrow> (rs, page_url page # requested)))"

text \<open>\<open>xs.findIndex(p)\<close>, which is -1 when no element satisfies \<open>p\<close>.\<close>

fun findIndex :: "('a \<Rightarrow> bool) \<Rightarrow> 'a list \<Rightarrow> int" where
  "findIndex p [] = - 1"
| "findIndex p (x # xs) =
     (if p x then 0 else (let i = findIndex p xs in if i < 0 then - 1 else i + 1))"

definition uniqueResults :: "SearchResult list \<Rightarrow> SearchResult list" where
  "uniqueResults results =
     map snd (filter (\<lambda>(index, result). int index = findIndex (\<lambda>r. url r = url result) results)
                     (enumerate 0 results))"

text \<open>
  The crawler returns its results with the URLs it requested. Nothing outside the
  \<open>try\<close> blocks of the pages can raise, so the outcome is always a list.
\<close>

definition fallbackSearch ::
  "site \<Rightarrow> string \<Rightarrow> rat \<Rightarrow> string \<Rightarrow> (exn + SearchResult list) \<times> string list" where
  "fallbackSearch env query limit version =
     (let queryLower = toLowerCase query;
          baseUrl = getVersionUrl version;
          isMcp = isMcpQuery queryLower
      in case page_loop env isMcp queryLower limit baseUrl (pagesToSearch isMcp baseUrl) [] of
           (results, requested) \<Rightarrow> (Inr (slice0 (uniqueResults results) limit), requested))"

section \<open>The top-level search\<close>

text \<open>
  The first strategy, from the response to the request for the index: \<open>Inr (Some rs)\<close>
  returns \<open>rs\<close> to the caller, \<open>Inr None\<close> goes on to the search page, \<open>Inl e\<close> is an
  exception that leaves the outer \<open>try\<close> block. A SyntaxError of \<open>JSON.parse\<close> is
  caught by the inner \<open>try\<close>.
\<close>

definition index_strategy ::
  "site \<Rightarrow> response \<Rightarrow> string \<Rightarrow> string \<Rightarrow> rat \<Rightarrow> exn + SearchResult list option" where
  "index_strategy env resp query baseUrl limit =
     (if ok resp then
        (case body resp of
           None \<Rightarrow> Inl BodyError
         | Some searchIndexContent \<Rightarrow>
            (case match_setIndex env searchIndexContent of
               None \<Rightarrow> Inr None
             | Some m \<Rightarrow>
                (case JSON_parse env m of
                   None \<Rightarrow> Inr None
                 | Some searchData \<Rightarrow>
                    (let indexResults = performIndexSearch searchData query baseUrl limit
                     in if length indexResults > 0 then Inr (Some indexResults)
                        else Inr None))))
      else Inr None)"

text \<open>The second strategy, from the response to the request for the search page.\<close>

definition search_page_strategy ::
  "site \<Rightarrow> response \<Rightarrow> string \<Rightarrow> rat \<Rightarrow> exn + SearchResult list option" where
  "search_page_strategy env resp baseUrl limit =
     (if ok resp then
        (case body resp of
           None \<Rightarrow> Inl BodyError
         | Some html \<Rightarrow>
            (let results = search_links_scan baseUrl limit (search_section_links env html) []
             in if length results > 0 then Inr (Some (slice0 results limit)) else Inr None))
      else Inr None)"

definition searchIndexUrl :: "string \<Rightarrow> string" where
  "searchIndexUrl baseUrl = baseUrl @ ''/searchindex.js''"

text \<open>The URL of the search page, from the base URL and the encoded query.\<close>

definition searchUrl :: "string \<Rightarrow> string \<Rightarrow> string" where
  "searchUrl baseUrl encoded = baseUrl @ ''/search.html?q='' @ encoded"

text \<open>
  The outer \<open>try\<close> block, with the URLs it requests. A URIError of
  \<open>encodeURIComponent\<close> leaves the block before the search page is requested.
\<close>

definition try_block ::
  "site \<Rightarrow> string \<Rightarrow> rat \<Rightarrow> string \<Rightarrow> (exn + SearchResult list) \<times> string list" where
  "try_block env query limit version =
     (let baseUrl = getVersionUrl version in
      case fetch env (searchIndexUrl baseUrl) of
        Inl e \<Rightarrow> (Inl e, [searchIndexUrl baseUrl])
      | Inr resp \<Rightarrow>
         (case index_strategy env resp query baseUrl limit of
            Inl e \<Rightarrow> (Inl e, [searchIndexUrl baseUrl])
          | Inr (Some indexResults) \<Rightarrow> (Inr indexResults, [searchIndexUrl baseUrl])
          | Inr None \<Rightarrow>
             (case encodeURIComponent env query of
                None \<Rightarrow> (Inl URIError, [searchIndexUrl baseUrl])
              | Some encoded \<Rightarrow>
                 (case fetch env (searchUrl baseUrl encoded) of
                    Inl e \<Rightarrow> (Inl e, [searchIndexUrl baseUrl, searchUrl baseUrl encoded])
                  | Inr searchPageResponse \<Rightarrow>
                     (case search_page_strategy env searchPageResponse baseUrl limit of
                        Inl e \<Rightarrow> (Inl e, [searchIndexUrl baseUrl, searchUrl baseUrl encoded])
                      | Inr (Some results) \<Rightarrow>
                         (Inr results, [searchIndexUrl baseUrl, searchUrl baseUrl encoded])
                      | Inr None \<Rightarrow>
                         (case fallbackSearch env query limit version of
                            (r, requested) \<Rightarrow>
                              (r, [searchIndexUrl baseUrl, searchUrl baseUrl encoded]
                                    @ requested)))))))"

text \<open>
  The search: the outcome, an exception or the results, and the URLs requested, in
  order. The \<open>catch\<close> of the outer block runs the crawler.
\<close>

definition searchAutoGenDocs ::
  "site \<Rightarrow> string \<Rightarrow> rat \<Rightarrow> string \<Rightarrow> (exn + SearchResult list) \<times> string list" where
  "searchAutoGenDocs env query limit version =
     (case try_block env query limit version of
        (Inr results, requested) \<Rightarrow> (Inr results, requested)
      | (Inl e, requested) \<Rightarrow>
         (case fallbackSearch env query limit version of
            (r, requested') \<Rightarrow> (r, requested @ requested')))"

text \<open>The results that the crawler has collected when its loop over the pages ends.\<close>

definition crawl_results :: "site \<Rightarrow> string \<Rightarrow> rat \<Rightarrow> string \<Rightarrow> SearchResult list" where
  "crawl_results env query limit version =
     fst (page_loop env (isMcpQuery (toLowerCase query)) (toLowerCase query) limit
            (getVersionUrl version)
            (pagesToSearch (isMcpQuery (toLowerCase query)) (getVersionUrl version)) [])"

section \<open>Sites for the scenarios\<close>

text \<open>A site on which every request is answered with a status that is not ok.\<close>

definition empty_dom :: page_dom where
  "empty_dom = \<lparr>title_text = [], h1_first_text = [], content_text = [], root_text = [],
     headings = [], blocks = [], headings_and_blocks = [], links = []\<rparr>"

definition unreachable_site :: site where
  "unreachable_site = \<lparr>fetch = (\<lambda>u. Inr \<lparr>ok = False, body = None\<rparr>),
     encodeURIComponent = (\<lambda>s. Some (encode_latin1 s)),
     match_setIndex = (\<lambda>s. None), JSON_parse = (\<lambda>s. None),
     search_section_links = (\<lambda>s. []), load = (\<lambda>s. empty_dom)\<rparr>"

text \<open>
  A site whose search index lists one document, titled \<open>Agent Introduction\<close>, at
  \<open>python/agent-intro\<close>; every other request is answered with a status that is not ok.
\<close>

definition agent_index :: search_index where
  "agent_index = \<lparr>titles = Some [JStr ''Agent Introduction''],
                    docnames = Some [JStr ''python/agent-intro'']\<rparr>"

definition agent_site :: site where
  "agent_site = \<lparr>fetch = (\<lambda>u. if u = ''https://microsoft.github.io/autogen/stable/searchindex.js''
                                then Inr \<lparr>ok = True, body = Some ''Search.setIndex(J)''\<rparr>
                                else Inr \<lparr>ok = False, body = None\<rparr>),
     encodeURIComponent = (\<lambda>s. Some (encode_latin1 s)),
     match_setIndex = (\<lambda>s. if s = ''Search.setIndex(J)'' then Some ''J'' else None),
     JSON_parse = (\<lambda>s. if s = ''J'' then Some agent_index else None),
     search_section_links = (\<lambda>s. []), load = (\<lambda>s. empty_dom)\<rparr>"

text \<open>An element with nothing to read, to build the elements of the scenarios from.\<close>

definition plain_element :: element where
  "plain_element = \<lparr>tagName = [], text_of = [], attr_id = None, attr_href = None,
     next_text = None, next_p_div_text = [], prev_heading = None, parent_text = [],
     parent_siblings_text = []\<rparr>"

text \<open>
  A site whose search page lists one link, with an annotation of 201 characters in
  parentheses after it; every other request is answered with a status that is not ok.
\<close>

definition long_annotation_site :: site where
  "long_annotation_site = \<lparr>fetch = (\<lambda>u. if u = ''https://microsoft.github.io/autogen/stable/search.html?q=agent''
                                then Inr \<lparr>ok = True, body = Some ''S''\<rparr>
                                else Inr \<lparr>ok = False, body = None\<rparr>),
     encodeURIComponent = (\<lambda>s. Some (encode_latin1 s)),
     match_setIndex = (\<lambda>s. None), JSON_parse = (\<lambda>s. None),
     search_section_links = (\<lambda>s. [plain_element\<lparr>tagName := ''a'', text_of := ''Agent'',
        attr_href := Some ''agent.html'',
        parent_text := ''Agent ('' @ replicate 201 (CHR ''x'') @ '')''\<rparr>]),
     load = (\<lambda>s. empty_dom)\<rparr>"

text \<open>
  A site whose first crawled page has a heading of 206 characters that contains the query
  and no paragraph after it; every other request is answered with a status that is not ok.
\<close>

definition long_heading_site :: site where
  "long_heading_site = \<lparr>fetch = (\<lambda>u. if u = ''https://microsoft.github.io/autogen/stable/user-guide/index.html''
                                then Inr \<lparr>ok = True, body = Some ''P''\<rparr>
                                else Inr \<lparr>ok = False, body = None\<rparr>),
     encodeURIComponent = (\<lambda>s. Some (encode_latin1 s)),
     match_setIndex = (\<lambda>s. None), JSON_parse = (\<lambda>s. None),
     search_section_links = (\<lambda>s. []),
     load = (\<lambda>s. empty_dom\<lparr>content_text := ''agent'',
        headings := [plain_element\<lparr>tagName := ''h2'',
                       text_of := ''agent '' @ replicate 200 (CHR ''x'')\<rparr>]\<rparr>)\<rparr>"

text \<open>
  Deduplication by URL in the words of the specification: the entries are taken in order
  and an entry is kept when no earlier entry has its URL, so the first occurrence wins.
  \<open>seen\<close> holds the URLs met so far.
\<close>

fun first_by_url :: "string list \<Rightarrow> SearchResult list \<Rightarrow> SearchResult list" where
  "first_by_url seen [] = []"
| "first_by_url seen (r # rs) =
     (if url r \<in> set seen then first_by_url seen rs
      else r # first_by_url (url r # seen) rs)"

text \<open>
  A site whose search page lists two links to the same page; every other request is
  answered with a status that is not ok.
\<close>

definition duplicate_links_site :: site where
  "duplicate_links_site = \<lparr>fetch = (\<lambda>u. if u = ''https://microsoft.github.io/autogen/stable/search.html?q=agent''
                                then Inr \<lparr>ok = True, body = Some ''S''\<rparr>
                                else Inr \<lparr>ok = False, body = None\<rparr>),
     encodeURIComponent = (\<lambda>s. Some (encode_latin1 s)),
     match_setIndex = (\<lambda>s. None), JSON_parse = (\<lambda>s. None),
     search_section_links = (\<lambda>s.
       [plain_element\<lparr>tagName := ''a'', text_of := ''Agent'', attr_href := Some ''agent.html''\<rparr>,
        plain_element\<lparr>tagName := ''a'', text_of := ''More on agents'',
                        attr_href := Some ''agent.html''\<rparr>]),
     load = (\<lambda>s. empty_dom)\<rparr>"

text \<open>A site whose search index lists the same document name under two titles.\<close>

definition duplicate_index :: search_index where
  "duplicate_index = \<lparr>titles = Some [JStr ''Agent'', JStr ''Agent again''],
                        docnames = Some [JStr ''agent'', JStr ''agent'']\<rparr>"

definition duplicate_index_site :: site where
  "duplicate_index_site = \<lparr>fetch = (\<lambda>u. if u = ''https://microsoft.github.io/autogen/stable/searchindex.js''
                                then Inr \<lparr>ok = True, body = Some ''Search.setIndex(J)''\<rparr>
                                else Inr \<lparr>ok = False, body = None\<rparr>),
     encodeURIComponent = (\<lambda>s. Some (encode_latin1 s)),
     match_setIndex = (\<lambda>s. if s = ''Search.setIndex(J)'' then Some ''J'' else None),
     JSON_parse = (\<lambda>s. if s = ''J'' then Some duplicate_index else None),
     search_section_links = (\<lambda>s. []), load = (\<lambda>s. empty_dom)\<rparr>"

text \<open>
  A site whose first crawled page has a heading and a paragraph that both contain the
  query; neither has an \<open>id\<close> to link to, so both entries get the URL of the page.
\<close>

definition repeated_url_site :: site where
  "repeated_url_site = \<lparr>fetch = (\<lambda>u. if u = ''https://microsoft.github.io/autogen/stable/user-guide/index.html''
                                then Inr \<lparr>ok = True, body = Some ''P''\<rparr>
                                else Inr \<lparr>ok = False, body = None\<rparr>),
     encodeURIComponent = (\<lambda>s. Some (encode_latin1 s)),
     match_setIndex = (\<lambda>s. None), JSON_parse = (\<lambda>s. None),
     search_section_links = (\<lambda>s. []),
     load = (\<lambda>s. empty_dom\<lparr>content_text := ''agent basics an agent acts'',
        headings := [plain_element\<lparr>tagName := ''h2'', text_of := ''Agent basics''\<rparr>],
        blocks := [plain_element\<lparr>tagName := ''p'',
                     text_of := ''An agent acts on behalf of a user and calls tools to do so.'',
                     prev_heading := Some (''Overview'', None)\<rparr>]\<rparr>)\<rparr>"

text \<open>
  The entry that the index search pushes for a document, a pair of a title and a document
  name, and the candidates of a list of documents: the entries of the documents with a
  positive score, in the order of the index.
\<close>

definition index_entry :: "string \<Rightarrow> string \<times> string \<Rightarrow> SearchResult" where
  "index_entry baseUrl doc =
     \<lparr>title = fst doc, url = baseUrl @ ''/'' @ snd doc @ ''.html'',
      snippet = doc_type (snd doc), type = doc_type (snd doc)\<rparr>"

definition candidates ::
  "string list \<Rightarrow> string \<Rightarrow> (string \<times> string) list \<Rightarrow> SearchResult list" where
  "candidates queryTerms baseUrl docs =
     map (index_entry baseUrl)
         (filter (\<lambda>doc. doc_score queryTerms (toLowerCase (fst doc)) (toLowerCase (snd doc)) > 0)
                 docs)"

text \<open>
  The documents that the loop over the index can read: the pairs of a title and a document
  name, position by position, up to the first position where the title or the document name
  is not a string (a document name is missing, \<open>undefined\<close>, where \<open>docnames\<close> is
  shorter than \<open>titles\<close>). \<open>all_strings\<close> holds when no such position exists below
  the length of \<open>titles\<close>.
\<close>

fun string_docs :: "jsval list \<Rightarrow> jsval list \<Rightarrow> (string \<times> string) list" where
  "string_docs [] ds = []"
| "string_docs (t # ts) ds =
     (case t of
        JNonStr \<Rightarrow> []
      | JStr title_i \<Rightarrow>
         (case js_head ds of
            JNonStr \<Rightarrow> []
          | JStr docname \<Rightarrow> (title_i, docname) # string_docs ts (tl ds)))"

fun all_strings :: "jsval list \<Rightarrow> jsval list \<Rightarrow> bool" where
  "all_strings [] ds = True"
| "all_strings (t # ts) ds =
     (case t of
        JNonStr \<Rightarrow> False
      | JStr title_i \<Rightarrow>
         (case js_head ds of
            JNonStr \<Rightarrow> False
          | JStr docname \<Rightarrow> all_strings ts (tl ds)))"



text \<open>
  A site on which the request for the search index is rejected (a failure of the network)
  and every other request is answered with a status that is not ok.
\<close>

definition index_rejected_site :: site where
  "index_rejected_site = \<lparr>fetch = (\<lambda>u. if u = ''https://microsoft.github.io/autogen/stable/searchindex.js''
                                then Inl FetchError
                                else Inr \<lparr>ok = False, body = None\<rparr>),
     encodeURIComponent = (\<lambda>s. Some (encode_latin1 s)),
     match_setIndex = (\<lambda>s. None), JSON_parse = (\<lambda>s. None),
     search_section_links = (\<lambda>s. []), load = (\<lambda>s. empty_dom)\<rparr>"

text \<open>
  A crawled page and elements of it for the scenarios of the scans: a heading and a link
  that contain the query \<open>agent\<close>, a paragraph under the heading \<open>Overview\<close>, and the
  entries that the scans push for the heading and for the paragraph.
\<close>

definition guide_page :: page_ref where
  "guide_page = \<lparr>page_url = ''https://microsoft.github.io/autogen/stable/user-guide/index.html'',
                  page_type = ''User Guide''\<rparr>"

definition basics_heading :: element where
  "basics_heading = plain_element\<lparr>tagName := ''h2'', text_of := ''Agent basics''\<rparr>"

definition guide_link :: element where
  "guide_link = plain_element\<lparr>tagName := ''a'', text_of := ''Agent guide'',
     attr_href := Some ''https://microsoft.github.io/autogen/stable/user-guide/index.html''\<rparr>"

definition overview_block :: element where
  "overview_block = plain_element\<lparr>tagName := ''p'',
     text_of := ''An agent acts on behalf of a user and calls tools to do so.'',
     prev_heading := Some (''Overview'', None)\<rparr>"

definition twice_heading_dom :: page_dom where
  "twice_heading_dom = empty_dom\<lparr>content_text := ''Agent basics Agent basics'',
     headings := [basics_heading, basics_heading]\<rparr>"

definition heading_and_link_dom :: page_dom where
  "heading_and_link_dom = empty_dom\<lparr>content_text := ''Agent basics Agent guide'',
     headings := [basics_heading], links := [guide_link]\<rparr>"

definition link_only_dom :: page_dom where
  "link_only_dom = empty_dom\<lparr>content_text := ''Agent guide'', links := [guide_link]\<rparr>"

definition basics_entry :: SearchResult where
  "basics_entry = \<lparr>title = ''Agent basics'',
     url = ''https://microsoft.github.io/autogen/stable/user-guide/index.html'',
     snippet = ''User Guide: Agent basics'', type = ''User Guide''\<rparr>"

definition overview_entry :: SearchResult where
  "overview_entry = \<lparr>title = ''Overview'',
     url = ''https://microsoft.github.io/autogen/stable/user-guide/index.html'',
     snippet = ''An agent acts on behalf of a user and calls tools to do so.'',
     type = ''User Guide''\<rparr>"

text \<open>
  A site whose search page lists a link to a page on another host, with the string of the
  documentation domain in its path, and a link to the \<open>dev\<close> version of the
  documentation; every other request is answered with a status that is not ok.
\<close>

definition foreign_links_site :: site where
  "foreign_links_site = \<lparr>fetch = (\<lambda>u. if u = ''https://microsoft.github.io/autogen/stable/search.html?q=agent''
                                then Inr \<lparr>ok = True, body = Some ''S''\<rparr>
                                else Inr \<lparr>ok = False, body = None\<rparr>),
     encodeURIComponent = (\<lambda>s. Some (encode_latin1 s)),
     match_setIndex = (\<lambda>s. None), JSON_parse = (\<lambda>s. None),
     search_section_links = (\<lambda>s.
       [plain_element\<lparr>tagName := ''a'', text_of := ''Agent mirror'',
          attr_href := Some ''https://evil.example/microsoft.github.io/autogen/x''\<rparr>,
        plain_element\<lparr>tagName := ''a'', text_of := ''Agent of dev'',
          attr_href := Some ''https://microsoft.github.io/autogen/dev/agent.html''\<rparr>]),
     load = (\<lambda>s. empty_dom)\<rparr>"


text \<open>
  An index in which five documents that match the query \<open>agent\<close> come before the
  document titled \<open>Agent Introduction\<close>, and a site that serves it.
\<close>

definition crowded_index :: search_index where
  "crowded_index =
     \<lparr>titles = Some [JStr ''Agent one'', JStr ''Agent two'', JStr ''Agent three'',
                      JStr ''Agent four'', JStr ''Agent five'', JStr ''Agent Introduction''],
      docnames = Some [JStr ''a1'', JStr ''a2'', JStr ''a3'', JStr ''a4'', JStr ''a5'',
                        JStr ''python/agent-intro'']\<rparr>"

definition crowded_site :: site where
  "crowded_site = \<lparr>fetch = (\<lambda>u. if u = ''https://microsoft.github.io/autogen/stable/searchindex.js''
                                then Inr \<lparr>ok = True, body = Some ''Search.setIndex(J)''\<rparr>
                                else Inl FetchError),
                     encodeURIComponent = (\<lambda>s. Some (encode_latin1 s)),
                     match_setIndex = (\<lambda>c. if c = ''Search.setIndex(J)'' then Some ''J'' else None),
                     JSON_parse = (\<lambda>m. if m = ''J'' then Some crowded_index else None),
                     search_section_links = (\<lambda>b. []),
                     load = (\<lambda>b. empty_dom)\<rparr>"

text \<open>
  An index in which two documents, one of them matching the query \<open>agent\<close>, come before
  the document titled \<open>Agent Introduction\<close>, and a site that serves it.
\<close>

definition guide_agent_index :: search_index where
  "guide_agent_index =
     \<lparr>titles = Some [JStr ''Getting started'', JStr ''Agent tools'', JStr ''Agent Introduction''],
      docnames = Some [JStr ''intro'', JStr ''tools'', JStr ''python/agent-intro'']\<rparr>"

definition guide_agent_site :: site where
  "guide_agent_site = \<lparr>fetch = (\<lambda>u. if u = ''https://microsoft.github.io/autogen/stable/searchindex.js''
                                then Inr \<lparr>ok = True, body = Some ''Search.setIndex(J)''\<rparr>
                                else Inl FetchError),
                     encodeURIComponent = (\<lambda>s. Some (encode_latin1 s)),
                     match_setIndex = (\<lambda>c. if c = ''Search.setIndex(J)'' then Some ''J'' else None),
                     JSON_parse = (\<lambda>m. if m = ''J'' then Some guide_agent_index else None),
                     search_section_links = (\<lambda>b. []),
                     load = (\<lambda>b. empty_dom)\<rparr>"

text \<open>
  A site for the queries that hold a lone surrogate: \<open>encodeURIComponent\<close> raises a
  URIError on them; every request is answered with a status that is not ok.
\<close>

definition surrogate_site :: site where
  "surrogate_site = \<lparr>fetch = (\<lambda>u. Inr \<lparr>ok = False, body = None\<rparr>),
     encodeURIComponent = (\<lambda>s. None),
     match_setIndex = (\<lambda>s. None), JSON_parse = (\<lambda>s. None),
     search_section_links = (\<lambda>s. []), load = (\<lambda>s. empty_dom)\<rparr>"

section \<open>Basic facts\<close>

lemma less_limit_iff: "(of_nat n < (limit::rat)) = (int n < \<lceil>limit\<rceil>)"
  by (simp add: less_ceiling_iff)

lemma limit_le_iff: "((limit::rat) \<le> of_nat n) = (\<lceil>limit\<rceil> \<le> int n)"
  by (simp add: ceiling_le_iff)

lemma to_integer_nonneg: "0 \<le> n \<Longrightarrow> to_integer n = \<lfloor>n\<rfloor>"
  by (simp add: to_integer_def)

lemma slice0_take: "\<exists>k. slice0 xs l = take k xs"
  by (auto simp: slice0_def Let_def)

lemma slice0_length: "0 \<le> n \<Longrightarrow> of_nat (length (slice0 xs n)) \<le> n"
proof -
  assume n: "0 \<le> n"
  then have "length (slice0 xs n) \<le> nat \<lfloor>n\<rfloor>"
    by (simp add: slice0_def Let_def to_integer_nonneg)
  then have "int (length (slice0 xs n)) \<le> \<lfloor>n\<rfloor>"
    using n by linarith
  then have "(of_int (int (length (slice0 xs n))) :: rat) \<le> of_int \<lfloor>n\<rfloor>"
    by (simp only: of_int_le_iff)
  also have "\<dots> \<le> n" by (rule of_int_floor_le)
  finally show ?thesis by simp
qed

lemma slice0_subset: "set (slice0 xs n) \<subseteq> set xs"
  using slice0_take[of xs n] by (auto dest: in_set_takeD)

lemma slice0_Nil: "slice0 [] n = []"
  using slice0_take[of "[]" n] by auto

lemma lower_char_space: "is_space c \<Longrightarrow> lower_char c = c"
  by (auto simp: is_space_def lower_char_def Let_def)

lemma is_space_lower: "\<forall>c\<in>set s. is_space c \<Longrightarrow> toLowerCase s = s"
  by (induction s) (auto simp: toLowerCase_def lower_char_space)

lemma split_aux_spaces:
  "\<forall>c\<in>set s. is_space c \<Longrightarrow> set (split_aux b [] s) \<subseteq> {[]}"
  by (induction s arbitrary: b) auto

lemma query_terms_spaces: "\<forall>c\<in>set q. is_space c \<Longrightarrow> query_terms q = []"
  using split_aux_spaces[of q False]
  by (auto simp: query_terms_def split_ws_def is_space_lower filter_empty_conv)

lemma index_loop_no_terms: "fst (index_loop [] baseUrl limit ts ds rs) = rs"
  by (induction "[]::string list" baseUrl limit ts ds rs rule: index_loop.induct)
     (auto simp: doc_score_def split: jsval.splits)

lemma sort_results_Nil: "sort_results qt [] = []"
  by (simp add: sort_results_def)

lemma index_loop_no_terms_eq: "index_loop [] baseUrl limit ts ds rs = (rs', x) \<Longrightarrow> rs' = rs"
  using index_loop_no_terms[of baseUrl limit ts ds rs] by simp

lemma performIndexSearch_no_terms:
  "query_terms q = [] \<Longrightarrow> performIndexSearch sd q baseUrl limit = []"
  by (auto simp: performIndexSearch_def Let_def slice0_Nil sort_results_Nil
           split: option.splits prod.splits dest!: index_loop_no_terms_eq)

lemma index_strategy_Some:
  "index_strategy env resp q baseUrl limit = Inr (Some rs) \<Longrightarrow>
     \<exists>sd. rs = performIndexSearch sd q baseUrl limit \<and> rs \<noteq> []"
  by (auto simp: index_strategy_def Let_def split: if_splits option.splits)

lemma search_page_strategy_Some:
  "search_page_strategy env resp baseUrl limit = Inr (Some rs) \<Longrightarrow>
     \<exists>els. rs = slice0 (search_links_scan baseUrl limit els []) limit"
  by (auto simp: search_page_strategy_def Let_def split: if_splits option.splits)

lemma fallbackSearch_fst:
  "fst (fallbackSearch env q limit v) = Inr (slice0 (uniqueResults (crawl_results env q limit v)) limit)"
  by (simp add: fallbackSearch_def crawl_results_def Let_def split: prod.splits)

lemma search_result_property:
  assumes index: "\<And>sd. P (performIndexSearch sd q (getVersionUrl v) limit)"
      and page: "\<And>els. P (slice0 (search_links_scan (getVersionUrl v) limit els []) limit)"
      and crawl: "P (slice0 (uniqueResults (crawl_results env q limit v)) limit)"
  shows "\<exists>rs. fst (searchAutoGenDocs env q limit v) = Inr rs \<and> P rs"
proof -
  have fb: "\<And>r tr. fallbackSearch env q limit v = (r, tr) \<Longrightarrow>
              r = Inr (slice0 (uniqueResults (crawl_results env q limit v)) limit)"
    using fallbackSearch_fst[of env q limit v] by simp
  show ?thesis
    using index page crawl
    by (auto simp: searchAutoGenDocs_def try_block_def Let_def
             split: sum.splits option.splits prod.splits
             dest!: fb index_strategy_Some search_page_strategy_Some)
qed

lemma page_body_failed:
  "\<forall>resp. fetch env (page_url page) = Inr resp \<longrightarrow> \<not> ok resp \<Longrightarrow>
     (case page_body env isMcp ql limit baseUrl page rs of Inl e \<Rightarrow> rs | Inr rs' \<Rightarrow> rs') = rs"
  by (auto simp: page_body_def split: sum.splits)

lemma page_loop_failed:
  "\<forall>u\<in>set (snd (page_loop env isMcp ql limit baseUrl pages rs)).
      \<forall>resp. fetch env u = Inr resp \<longrightarrow> \<not> ok resp \<Longrightarrow>
   fst (page_loop env isMcp ql limit baseUrl pages rs) = rs"
proof (induction pages arbitrary: rs)
  case Nil
  then show ?case by simp
next
  case (Cons page pages)
  show ?case
  proof (cases "of_nat (length rs) \<ge> limit")
    case True
    then show ?thesis by simp
  next
    case False
    let ?rs' = "case page_body env isMcp ql limit baseUrl page rs of Inl e \<Rightarrow> rs | Inr rs' \<Rightarrow> rs'"
    from False Cons.prems
    have here: "\<forall>resp. fetch env (page_url page) = Inr resp \<longrightarrow> \<not> ok resp"
      and rest: "\<forall>u\<in>set (snd (page_loop env isMcp ql limit baseUrl pages ?rs')).
                   \<forall>resp. fetch env u = Inr resp \<longrightarrow> \<not> ok resp"
      by (auto split: prod.splits)
    from here have same: "?rs' = rs" by (rule page_body_failed)
    from rest have "fst (page_loop env isMcp ql limit baseUrl pages ?rs') = ?rs'"
      by (rule Cons.IH)
    with same False show ?thesis by (auto split: prod.splits)
  qed
qed

lemma uniqueResults_Nil: "uniqueResults [] = []"
  by (simp add: uniqueResults_def)

lemma snd_fallbackSearch:
  "snd (fallbackSearch env q limit v) =
     snd (page_loop env (isMcpQuery (toLowerCase q)) (toLowerCase q) limit (getVersionUrl v)
            (pagesToSearch (isMcpQuery (toLowerCase q)) (getVersionUrl v)) [])"
  by (simp add: fallbackSearch_def Let_def split: prod.splits)

lemma fallbackSearch_failed:
  assumes "\<forall>u\<in>set (snd (fallbackSearch env q limit v)).
             \<forall>resp. fetch env u = Inr resp \<longrightarrow> \<not> ok resp"
  shows "fst (fallbackSearch env q limit v) = Inr []"
  using page_loop_failed[of env "isMcpQuery (toLowerCase q)" "toLowerCase q" limit
          "getVersionUrl v" "pagesToSearch (isMcpQuery (toLowerCase q)) (getVersionUrl v)" "[]"]
        assms
  by (simp add: fallbackSearch_fst crawl_results_def snd_fallbackSearch uniqueResults_Nil slice0_Nil)

lemma index_strategy_not_ok: "\<not> ok resp \<Longrightarrow> index_strategy env resp q b l = Inr None"
  by (simp add: index_strategy_def)

lemma search_page_strategy_not_ok: "\<not> ok resp \<Longrightarrow> search_page_strategy env resp b l = Inr None"
  by (simp add: search_page_strategy_def)

lemma search_index_rejected:
  "fetch env (searchIndexUrl (getVersionUrl v)) = Inl e \<Longrightarrow>
   searchAutoGenDocs env q limit v =
     (fst (fallbackSearch env q limit v),
      searchIndexUrl (getVersionUrl v) # snd (fallbackSearch env q limit v))"
  by (simp add: searchAutoGenDocs_def try_block_def Let_def split: prod.splits)

lemma search_index_raised:
  "fetch env (searchIndexUrl (getVersionUrl v)) = Inr resp \<Longrightarrow>
   index_strategy env resp q (getVersionUrl v) limit = Inl e \<Longrightarrow>
   searchAutoGenDocs env q limit v =
     (fst (fallbackSearch env q limit v),
      searchIndexUrl (getVersionUrl v) # snd (fallbackSearch env q limit v))"
  by (simp add: searchAutoGenDocs_def try_block_def Let_def split: prod.splits)

lemma search_index_found:
  "fetch env (searchIndexUrl (getVersionUrl v)) = Inr resp \<Longrightarrow>
   index_strategy env resp q (getVersionUrl v) limit = Inr (Some rs) \<Longrightarrow>
   searchAutoGenDocs env q limit v = (Inr rs, [searchIndexUrl (getVersionUrl v)])"
  by (simp add: searchAutoGenDocs_def try_block_def Let_def split: prod.splits)

lemma search_uri_error:
  "fetch env (searchIndexUrl (getVersionUrl v)) = Inr resp \<Longrightarrow>
   index_strategy env resp q (getVersionUrl v) limit = Inr None \<Longrightarrow>
   encodeURIComponent env q = None \<Longrightarrow>
   searchAutoGenDocs env q limit v =
     (fst (fallbackSearch env q limit v),
      searchIndexUrl (getVersionUrl v) # snd (fallbackSearch env q limit v))"
  by (simp add: searchAutoGenDocs_def try_block_def Let_def split: prod.splits)

lemma search_page_rejected:
  "fetch env (searchIndexUrl (getVersionUrl v)) = Inr resp \<Longrightarrow>
   index_strategy env resp q (getVersionUrl v) limit = Inr None \<Longrightarrow>
   encodeURIComponent env q = Some enc \<Longrightarrow>
   fetch env (searchUrl (getVersionUrl v) enc) = Inl e \<Longrightarrow>
   searchAutoGenDocs env q limit v =
     (fst (fallbackSearch env q limit v),
      searchIndexUrl (getVersionUrl v) # searchUrl (getVersionUrl v) enc
        # snd (fallbackSearch env q limit v))"
  by (simp add: searchAutoGenDocs_def try_block_def Let_def split: prod.splits)

lemma search_page_raised:
  "fetch env (searchIndexUrl (getVersionUrl v)) = Inr resp \<Longrightarrow>
   index_strategy env resp q (getVersionUrl v) limit = Inr None \<Longrightarrow>
   encodeURIComponent env q = Some enc \<Longrightarrow>
   fetch env (searchUrl (getVersionUrl v) enc) = Inr resp2 \<Longrightarrow>
   search_page_strategy env resp2 (getVersionUrl v) limit = Inl e \<Longrightarrow>
   searchAutoGenDocs env q limit v =
     (fst (fallbackSearch env q limit v),
      searchIndexUrl (getVersionUrl v) # searchUrl (getVersionUrl v) enc
        # snd (fallbackSearch env q limit v))"
  by (simp add: searchAutoGenDocs_def try_block_def Let_def split: prod.splits)

lemma search_page_found:
  "fetch env (searchIndexUrl (getVersionUrl v)) = Inr resp \<Longrightarrow>
   index_strategy env resp q (getVersionUrl v) limit = Inr None \<Longrightarrow>
   encodeURIComponent env q = Some enc \<Longrightarrow>
   fetch env (searchUrl (getVersionUrl v) enc) = Inr resp2 \<Longrightarrow>
   search_page_strategy env resp2 (getVersionUrl v) limit = Inr (Some rs) \<Longrightarrow>
   searchAutoGenDocs env q limit v =
     (Inr rs, [searchIndexUrl (getVersionUrl v), searchUrl (getVersionUrl v) enc])"
  by (simp add: searchAutoGenDocs_def try_block_def Let_def split: prod.splits)

lemma search_page_empty:
  "fetch env (searchIndexUrl (getVersionUrl v)) = Inr resp \<Longrightarrow>
   index_strategy env resp q (getVersionUrl v) limit = Inr None \<Longrightarrow>
   encodeURIComponent env q = Some enc \<Longrightarrow>
   fetch env (searchUrl (getVersionUrl v) enc) = Inr resp2 \<Longrightarrow>
   search_page_strategy env resp2 (getVersionUrl v) limit = Inr None \<Longrightarrow>
   searchAutoGenDocs env q limit v =
     (fst (fallbackSearch env q limit v),
      searchIndexUrl (getVersionUrl v) # searchUrl (getVersionUrl v) enc
        # snd (fallbackSearch env q limit v))"
  apply (simp add: searchAutoGenDocs_def try_block_def Let_def split: prod.splits)
  apply (simp add: fallbackSearch_def Let_def split: prod.splits)
  done

lemma searchAutoGenDocs_cases:
  obtains
    (crawl_first)
      "searchAutoGenDocs env q limit v =
         (fst (fallbackSearch env q limit v),
          searchIndexUrl (getVersionUrl v) # snd (fallbackSearch env q limit v))"
      "\<forall>resp. fetch env (searchIndexUrl (getVersionUrl v)) = Inr resp \<longrightarrow>
         (\<exists>e. index_strategy env resp q (getVersionUrl v) limit = Inl e)
         \<or> (index_strategy env resp q (getVersionUrl v) limit = Inr None
            \<and> encodeURIComponent env q = None)"
  | (index) resp rs where
      "fetch env (searchIndexUrl (getVersionUrl v)) = Inr resp"
      "index_strategy env resp q (getVersionUrl v) limit = Inr (Some rs)"
      "searchAutoGenDocs env q limit v = (Inr rs, [searchIndexUrl (getVersionUrl v)])"
  | (page) resp enc resp2 rs where
      "fetch env (searchIndexUrl (getVersionUrl v)) = Inr resp"
      "index_strategy env resp q (getVersionUrl v) limit = Inr None"
      "encodeURIComponent env q = Some enc"
      "fetch env (searchUrl (getVersionUrl v) enc) = Inr resp2"
      "search_page_strategy env resp2 (getVersionUrl v) limit = Inr (Some rs)"
      "searchAutoGenDocs env q limit v =
         (Inr rs, [searchIndexUrl (getVersionUrl v), searchUrl (getVersionUrl v) enc])"
  | (crawl_last) resp enc where
      "fetch env (searchIndexUrl (getVersionUrl v)) = Inr resp"
      "index_strategy env resp q (getVersionUrl v) limit = Inr None"
      "encodeURIComponent env q = Some enc"
      "\<forall>resp2. fetch env (searchUrl (getVersionUrl v) enc) = Inr resp2 \<longrightarrow>
         (\<forall>rs. search_page_strategy env resp2 (getVersionUrl v) limit \<noteq> Inr (Some rs))"
      "searchAutoGenDocs env q limit v =
         (fst (fallbackSearch env q limit v),
          searchIndexUrl (getVersionUrl v) # searchUrl (getVersionUrl v) enc
            # snd (fallbackSearch env q limit v))"
proof (cases "fetch env (searchIndexUrl (getVersionUrl v))")
  case (Inl e)
  then show ?thesis using crawl_first search_index_rejected[of env v e q limit] by simp
next
  case fetched: (Inr resp)
  show ?thesis
  proof (cases "index_strategy env resp q (getVersionUrl v) limit")
    case (Inl e)
    then show ?thesis
      using crawl_first search_index_raised[OF fetched, of q limit e] fetched by simp
  next
    case strat: (Inr found)
    show ?thesis
    proof (cases found)
      case (Some rs)
      then show ?thesis using index[OF fetched] search_index_found[OF fetched] strat by simp
    next
      case None
      with strat have none: "index_strategy env resp q (getVersionUrl v) limit = Inr None"
        by simp
      show ?thesis
      proof (cases "encodeURIComponent env q")
        case None
        then show ?thesis
          using crawl_first search_uri_error[OF fetched none] fetched none by simp
      next
        case enc: (Some enc)
        show ?thesis
        proof (cases "fetch env (searchUrl (getVersionUrl v) enc)")
          case (Inl e)
          then show ?thesis
            using crawl_last[OF fetched none enc] search_page_rejected[OF fetched none enc]
            by simp
        next
          case fetched2: (Inr resp2)
          show ?thesis
          proof (cases "search_page_strategy env resp2 (getVersionUrl v) limit")
            case (Inl e)
            then show ?thesis
              using crawl_last[OF fetched none enc]
                    search_page_raised[OF fetched none enc fetched2] fetched2 by simp
          next
            case strat2: (Inr found2)
            show ?thesis
            proof (cases found2)
              case (Some rs)
              then show ?thesis
                using page[OF fetched none enc fetched2]
                      search_page_found[OF fetched none enc fetched2] strat2 by simp
            next
              case None
              then show ?thesis
                using crawl_last[OF fetched none enc]
                      search_page_empty[OF fetched none enc fetched2] strat2 fetched2 by simp
            qed
          qed
        qed
      qed
    qed
  qed
qed

lemma index_strategy_None_iff:
  "index_strategy env resp q b limit = Inr None \<longleftrightarrow>
     \<not> ok resp
     \<or> (\<exists>c. body resp = Some c
           \<and> (match_setIndex env c = None
               \<or> (\<exists>m. match_setIndex env c = Some m
                     \<and> (JSON_parse env m = None
                         \<or> (\<exists>sd. JSON_parse env m = Some sd
                               \<and> performIndexSearch sd q b limit = [])))))"
  by (auto simp: index_strategy_def Let_def split: option.splits)

lemma search_page_next:
  assumes f: "fetch env (searchIndexUrl (getVersionUrl v)) = Inr resp"
      and n: "index_strategy env resp q (getVersionUrl v) limit = Inr None"
      and e: "encodeURIComponent env q = Some enc"
  shows "take 2 (snd (searchAutoGenDocs env q limit v))
           = [searchIndexUrl (getVersionUrl v), searchUrl (getVersionUrl v) enc]"
proof (cases rule: searchAutoGenDocs_cases[of env q limit v])
  case crawl_first
  with f n e show ?thesis by auto
next
  case (index resp' rs)
  with f n show ?thesis by simp
next
  case (page resp' enc' resp2 rs)
  with e show ?thesis by simp
next
  case (crawl_last resp' enc')
  with e show ?thesis by simp
qed

lemma search_crawler_last:
  assumes f: "fetch env (searchIndexUrl (getVersionUrl v)) = Inr resp"
      and n: "index_strategy env resp q (getVersionUrl v) limit = Inr None"
      and e: "encodeURIComponent env q = Some enc"
      and none: "\<forall>resp2 rs. fetch env (searchUrl (getVersionUrl v) enc) = Inr resp2
                  \<longrightarrow> search_page_strategy env resp2 (getVersionUrl v) limit \<noteq> Inr (Some rs)"
  shows "searchAutoGenDocs env q limit v =
           (fst (fallbackSearch env q limit v),
            searchIndexUrl (getVersionUrl v) # searchUrl (getVersionUrl v) enc
              # snd (fallbackSearch env q limit v))"
proof (cases rule: searchAutoGenDocs_cases[of env q limit v])
  case crawl_first
  with f n e show ?thesis by auto
next
  case (index resp' rs)
  with f n show ?thesis by simp
next
  case (page resp' enc' resp2 rs)
  with none e show ?thesis by simp
next
  case (crawl_last resp' enc')
  with e show ?thesis by simp
qed

lemma search_crawler_direct:
  assumes raised: "\<forall>resp. fetch env (searchIndexUrl (getVersionUrl v)) = Inr resp
                     \<longrightarrow> (\<exists>e. index_strategy env resp q (getVersionUrl v) limit = Inl e)
                         \<or> (index_strategy env resp q (getVersionUrl v) limit = Inr None
                             \<and> encodeURIComponent env q = None)"
  shows "searchAutoGenDocs env q limit v =
           (fst (fallbackSearch env q limit v),
            searchIndexUrl (getVersionUrl v) # snd (fallbackSearch env q limit v))"
proof (cases rule: searchAutoGenDocs_cases[of env q limit v])
  case crawl_first
  then show ?thesis by simp
next
  case (index resp' rs)
  with raised show ?thesis by auto
next
  case (page resp' enc' resp2 rs)
  with raised show ?thesis by auto
next
  case (crawl_last resp' enc')
  with raised show ?thesis by auto
qed

lemma searchAutoGenDocs_failed:
  assumes "\<forall>u\<in>set (snd (searchAutoGenDocs env q limit v)).
             \<forall>resp. fetch env u = Inr resp \<longrightarrow> \<not> ok resp"
  shows "fst (searchAutoGenDocs env q limit v) = Inr []"
proof (cases rule: searchAutoGenDocs_cases[of env q limit v])
  case crawl_first
  with assms show ?thesis by (simp add: fallbackSearch_failed)
next
  case (index resp rs)
  with assms have "\<not> ok resp" by simp
  with index show ?thesis by (simp add: index_strategy_not_ok)
next
  case (page resp enc resp2 rs)
  with assms have "\<not> ok resp2" by simp
  with page show ?thesis by (simp add: search_page_strategy_not_ok)
next
  case (crawl_last resp enc)
  with assms show ?thesis by (simp add: fallbackSearch_failed)
qed

lemma performIndexSearch_length:
  "0 \<le> limit \<Longrightarrow> of_nat (length (performIndexSearch sd q baseUrl limit)) \<le> limit"
  by (simp add: performIndexSearch_def Let_def slice0_length)

lemma page_loop_fst_Cons:
  "fst (page_loop env isMcp ql limit baseUrl (page # pages) rs) =
     (if of_nat (length rs) \<ge> limit then rs
      else fst (page_loop env isMcp ql limit baseUrl pages
                  (case page_body env isMcp ql limit baseUrl page rs of
                     Inl e \<Rightarrow> rs | Inr rs' \<Rightarrow> rs')))"
  by (simp split: prod.splits)

lemma page_loop_snd_Cons:
  "snd (page_loop env isMcp ql limit baseUrl (page # pages) rs) =
     (if of_nat (length rs) \<ge> limit then []
      else page_url page # snd (page_loop env isMcp ql limit baseUrl pages
                  (case page_body env isMcp ql limit baseUrl page rs of
                     Inl e \<Rightarrow> rs | Inr rs' \<Rightarrow> rs')))"
  by (simp split: prod.splits)

lemma page_loop_requested:
  "set (snd (page_loop env isMcp ql limit baseUrl pages rs)) \<subseteq> page_url ` set pages"
proof (induction pages arbitrary: rs)
  case Nil
  then show ?case by simp
next
  case (Cons page pages)
  show ?case
    using Cons.IH[of "case page_body env isMcp ql limit baseUrl page rs of
                        Inl e \<Rightarrow> rs | Inr rs' \<Rightarrow> rs'"]
    by (auto simp: page_loop_snd_Cons simp del: page_loop.simps)
qed

lemma mcp_is_mcp: "isMcpQuery (toLowerCase ''mcp'')"
  by code_simp

section \<open>The search never raises\<close>

lemma index_rejected_mcp_search:
  "searchAutoGenDocs index_rejected_site ''mcp'' 10 ''stable'' =
     (Inr [],
      [''https://microsoft.github.io/autogen/stable/searchindex.js'',
       ''https://microsoft.github.io/autogen/docs/ecosystem/integrations'',
       ''https://microsoft.github.io/autogen/docs/reference/agentchat/contrib'',
       ''https://microsoft.github.io/autogen/docs/ecosystem/community'',
       ''https://microsoft.github.io/autogen/docs/tutorial/code-executors'',
       ''https://microsoft.github.io/autogen/docs/tutorial/tool-use'',
       ''https://microsoft.github.io/autogen/docs/ecosystem/ecosystem'',
       ''https://microsoft.github.io/autogen/docs/Getting-Started'',
       ''https://microsoft.github.io/autogen/docs/tutorial/introduction'',
       ''https://microsoft.github.io/autogen/docs/Use-Cases/agent_chat'',
       ''https://microsoft.github.io/autogen/docs/Installation'',
       ''https://microsoft.github.io/autogen/docs/FAQ'',
       ''https://microsoft.github.io/autogen/docs/Migration-Guide'',
       ''https://microsoft.github.io/autogen/blog''])"
  by code_simp

lemma mcp_urls:
  "searchIndexUrl (getVersionUrl ''stable'')
     = ''https://microsoft.github.io/autogen/stable/searchindex.js''"
  "searchUrl (getVersionUrl ''stable'') ''mcp''
     = ''https://microsoft.github.io/autogen/stable/search.html?q=mcp''"
  by code_simp+

text \<open>
  Claim C1, as stated, fails in one part: not every failure of a strategy leads to the
  next strategy. When the request for the search index is rejected, the exception leaves
  the outer \<open>try\<close> block and the crawler runs at once; the search page, which is the next
  strategy, is not requested. The search still returns a list.
\<close>

theorem failure_skips_next_strategy_counterexample:
  "fetch index_rejected_site (searchIndexUrl (getVersionUrl ''stable'')) = Inl FetchError
   \<and> searchAutoGenDocs index_rejected_site ''mcp'' 10 ''stable'' =
     (Inr [],
      [''https://microsoft.github.io/autogen/stable/searchindex.js'',
       ''https://microsoft.github.io/autogen/docs/ecosystem/integrations'',
       ''https://microsoft.github.io/autogen/docs/reference/agentchat/contrib'',
       ''https://microsoft.github.io/autogen/docs/ecosystem/community'',
       ''https://microsoft.github.io/autogen/docs/tutorial/code-executors'',
       ''https://microsoft.github.io/autogen/docs/tutorial/tool-use'',
       ''https://microsoft.github.io/autogen/docs/ecosystem/ecosystem'',
       ''https://microsoft.github.io/autogen/docs/Getting-Started'',
       ''https://microsoft.github.io/autogen/docs/tutorial/introduction'',
       ''https://microsoft.github.io/autogen/docs/Use-Cases/agent_chat'',
       ''https://microsoft.github.io/autogen/docs/Installation'',
       ''https://microsoft.github.io/autogen/docs/FAQ'',
       ''https://microsoft.github.io/autogen/docs/Migration-Guide'',
       ''https://microsoft.github.io/autogen/blog''])
   \<and> encodeURIComponent index_rejected_site ''mcp'' = Some ''mcp''
   \<and> searchUrl (getVersionUrl ''stable'') ''mcp''
       \<notin> set (snd (searchAutoGenDocs index_rejected_site ''mcp'' 10 ''stable''))"
proof -
  have f: "fetch index_rejected_site (searchIndexUrl (getVersionUrl ''stable'')) = Inl FetchError"
    by (simp add: mcp_urls index_rejected_site_def)
  have e: "encodeURIComponent index_rejected_site ''mcp'' = Some ''mcp''"
    by code_simp
  from f e show ?thesis
    by (simp add: index_rejected_mcp_search mcp_urls)
qed

text \<open>
  Claim C1, amended. For every site, query, limit and version the search returns a list
  and never an exception. The list is the result of the first strategy or of the second
  when that strategy found something, and in every other case, whatever failed, it is the
  list of the crawler. A failure that the first strategy handles itself (a status that is
  not ok, no match, JSON that does not parse, no result) leads to the next strategy: the
  search page is requested next, and when it gives no result either (its request rejected,
  a status that is not ok, a body that cannot be read, no link collected) the crawler runs.
  An exception that leaves the outer \<open>try\<close> block before the search page is requested
  (a rejected request for the index, a body of the index that cannot be read, a query that
  cannot be encoded) leads directly to the crawler, and the search page is not requested.
  When every request that the search makes is rejected or answered with a status that is
  not ok, the list is empty; and when the query is about MCP and every page of the MCP list
  is rejected or not ok, the crawler returns the empty list.
\<close>

theorem search_never_throws:
  "(\<exists>rs. fst (searchAutoGenDocs env query limit version) = Inr rs)
   \<and> ((\<exists>resp rs. fetch env (searchIndexUrl (getVersionUrl version)) = Inr resp
           \<and> index_strategy env resp query (getVersionUrl version) limit = Inr (Some rs)
           \<and> fst (searchAutoGenDocs env query limit version) = Inr rs)
      \<or> (\<exists>enc resp rs. encodeURIComponent env query = Some enc
           \<and> fetch env (searchUrl (getVersionUrl version) enc) = Inr resp
           \<and> search_page_strategy env resp (getVersionUrl version) limit = Inr (Some rs)
           \<and> fst (searchAutoGenDocs env query limit version) = Inr rs)
      \<or> fst (searchAutoGenDocs env query limit version)
           = fst (fallbackSearch env query limit version))
   \<and> (\<forall>resp. index_strategy env resp query (getVersionUrl version) limit = Inr None \<longleftrightarrow>
          \<not> ok resp
          \<or> (\<exists>c. body resp = Some c
                \<and> (match_setIndex env c = None
                    \<or> (\<exists>m. match_setIndex env c = Some m
                          \<and> (JSON_parse env m = None
                              \<or> (\<exists>sd. JSON_parse env m = Some sd
                                    \<and> performIndexSearch sd query (getVersionUrl version) limit
                                        = []))))))
   \<and> (\<forall>resp enc. fetch env (searchIndexUrl (getVersionUrl version)) = Inr resp
          \<and> index_strategy env resp query (getVersionUrl version) limit = Inr None
          \<and> encodeURIComponent env query = Some enc
        \<longrightarrow> take 2 (snd (searchAutoGenDocs env query limit version))
              = [searchIndexUrl (getVersionUrl version), searchUrl (getVersionUrl version) enc])
   \<and> (\<forall>resp enc. fetch env (searchIndexUrl (getVersionUrl version)) = Inr resp
          \<and> index_strategy env resp query (getVersionUrl version) limit = Inr None
          \<and> encodeURIComponent env query = Some enc
          \<and> (\<forall>resp2 rs. fetch env (searchUrl (getVersionUrl version) enc) = Inr resp2
                 \<longrightarrow> search_page_strategy env resp2 (getVersionUrl version) limit
                       \<noteq> Inr (Some rs))
        \<longrightarrow> searchAutoGenDocs env query limit version
              = (fst (fallbackSearch env query limit version),
                 searchIndexUrl (getVersionUrl version) # searchUrl (getVersionUrl version) enc
                   # snd (fallbackSearch env query limit version)))
   \<and> ((\<forall>resp. fetch env (searchIndexUrl (getVersionUrl version)) = Inr resp
           \<longrightarrow> (\<exists>e. index_strategy env resp query (getVersionUrl version) limit = Inl e)
               \<or> (index_strategy env resp query (getVersionUrl version) limit = Inr None
                   \<and> encodeURIComponent env query = None))
        \<longrightarrow> searchAutoGenDocs env query limit version
             = (fst (fallbackSearch env query limit version),
                searchIndexUrl (getVersionUrl version)
                  # snd (fallbackSearch env query limit version)))
   \<and> ((\<forall>u\<in>set (snd (searchAutoGenDocs env query limit version)).
          \<forall>resp. fetch env u = Inr resp \<longrightarrow> \<not> ok resp)
        \<longrightarrow> fst (searchAutoGenDocs env query limit version) = Inr [])
   \<and> (isMcpQuery (toLowerCase query)
        \<and> (\<forall>p\<in>set (pagesToSearch True (getVersionUrl version)).
              \<forall>resp. fetch env (page_url p) = Inr resp \<longrightarrow> \<not> ok resp)
        \<longrightarrow> fst (fallbackSearch env query limit version) = Inr [])"
proof (intro conjI impI)
  show "\<exists>rs. fst (searchAutoGenDocs env query limit version) = Inr rs"
    using search_result_property[of "\<lambda>rs. True" query version limit env] by simp
next
  show "(\<exists>resp rs. fetch env (searchIndexUrl (getVersionUrl version)) = Inr resp
           \<and> index_strategy env resp query (getVersionUrl version) limit = Inr (Some rs)
           \<and> fst (searchAutoGenDocs env query limit version) = Inr rs)
      \<or> (\<exists>enc resp rs. encodeURIComponent env query = Some enc
           \<and> fetch env (searchUrl (getVersionUrl version) enc) = Inr resp
           \<and> search_page_strategy env resp (getVersionUrl version) limit = Inr (Some rs)
           \<and> fst (searchAutoGenDocs env query limit version) = Inr rs)
      \<or> fst (searchAutoGenDocs env query limit version)
           = fst (fallbackSearch env query limit version)"
  proof (cases rule: searchAutoGenDocs_cases[of env query limit version])
    case crawl_first
    then show ?thesis by simp
  next
    case (index resp rs)
    then show ?thesis by auto
  next
    case (page resp enc resp2 rs)
    then show ?thesis by auto
  next
    case (crawl_last resp enc)
    then show ?thesis by simp
  qed
next
  show "\<forall>resp. index_strategy env resp query (getVersionUrl version) limit = Inr None \<longleftrightarrow>
          \<not> ok resp
          \<or> (\<exists>c. body resp = Some c
                \<and> (match_setIndex env c = None
                    \<or> (\<exists>m. match_setIndex env c = Some m
                          \<and> (JSON_parse env m = None
                              \<or> (\<exists>sd. JSON_parse env m = Some sd
                                    \<and> performIndexSearch sd query (getVersionUrl version) limit
                                        = [])))))"
    by (intro allI) (rule index_strategy_None_iff)
next
  show "\<forall>resp enc. fetch env (searchIndexUrl (getVersionUrl version)) = Inr resp
          \<and> index_strategy env resp query (getVersionUrl version) limit = Inr None
          \<and> encodeURIComponent env query = Some enc
        \<longrightarrow> take 2 (snd (searchAutoGenDocs env query limit version))
              = [searchIndexUrl (getVersionUrl version), searchUrl (getVersionUrl version) enc]"
    using search_page_next[of env version _ query limit] by blast
next
  show "\<forall>resp enc. fetch env (searchIndexUrl (getVersionUrl version)) = Inr resp
          \<and> index_strategy env resp query (getVersionUrl version) limit = Inr None
          \<and> encodeURIComponent env query = Some enc
          \<and> (\<forall>resp2 rs. fetch env (searchUrl (getVersionUrl version) enc) = Inr resp2
                 \<longrightarrow> search_page_strategy env resp2 (getVersionUrl version) limit
                       \<noteq> Inr (Some rs))
        \<longrightarrow> searchAutoGenDocs env query limit version
              = (fst (fallbackSearch env query limit version),
                 searchIndexUrl (getVersionUrl version) # searchUrl (getVersionUrl version) enc
                   # snd (fallbackSearch env query limit version))"
  proof (intro allI impI)
    fix resp enc
    assume a: "fetch env (searchIndexUrl (getVersionUrl version)) = Inr resp
          \<and> index_strategy env resp query (getVersionUrl version) limit = Inr None
          \<and> encodeURIComponent env query = Some enc
          \<and> (\<forall>resp2 rs. fetch env (searchUrl (getVersionUrl version) enc) = Inr resp2
                 \<longrightarrow> search_page_strategy env resp2 (getVersionUrl version) limit
                       \<noteq> Inr (Some rs))"
    show "searchAutoGenDocs env query limit version
              = (fst (fallbackSearch env query limit version),
                 searchIndexUrl (getVersionUrl version) # searchUrl (getVersionUrl version) enc
                   # snd (fallbackSearch env query limit version))"
      by (rule search_crawler_last[of env version resp query limit enc]) (use a in simp_all)
  qed
next
  assume "\<forall>resp. fetch env (searchIndexUrl (getVersionUrl version)) = Inr resp
           \<longrightarrow> (\<exists>e. index_strategy env resp query (getVersionUrl version) limit = Inl e)
               \<or> (index_strategy env resp query (getVersionUrl version) limit = Inr None
                   \<and> encodeURIComponent env query = None)"
  then show "searchAutoGenDocs env query limit version
             = (fst (fallbackSearch env query limit version),
                searchIndexUrl (getVersionUrl version)
                  # snd (fallbackSearch env query limit version))"
    by (rule search_crawler_direct)
next
  assume "\<forall>u\<in>set (snd (searchAutoGenDocs env query limit version)).
            \<forall>resp. fetch env u = Inr resp \<longrightarrow> \<not> ok resp"
  then show "fst (searchAutoGenDocs env query limit version) = Inr []"
    by (rule searchAutoGenDocs_failed)
next
  assume a: "isMcpQuery (toLowerCase query)
        \<and> (\<forall>p\<in>set (pagesToSearch True (getVersionUrl version)).
              \<forall>resp. fetch env (page_url p) = Inr resp \<longrightarrow> \<not> ok resp)"
  have "set (snd (fallbackSearch env query limit version))
          \<subseteq> page_url ` set (pagesToSearch True (getVersionUrl version))"
    using a page_loop_requested[of env True "toLowerCase query" limit "getVersionUrl version"
                                   "pagesToSearch True (getVersionUrl version)" "[]"]
    by (simp add: snd_fallbackSearch)
  with a have "\<forall>u\<in>set (snd (fallbackSearch env query limit version)).
                 \<forall>resp. fetch env u = Inr resp \<longrightarrow> \<not> ok resp"
    by blast
  then show "fst (fallbackSearch env query limit version) = Inr []"
    by (rule fallbackSearch_failed)
qed

theorem search_never_throws_witness:
  "isMcpQuery (toLowerCase ''mcp'')
   \<and> fst (searchAutoGenDocs unreachable_site ''mcp'' 10 ''stable'') = Inr []
   \<and> fst (fallbackSearch unreachable_site ''mcp'' 10 ''stable'') = Inr []
   \<and> searchAutoGenDocs index_rejected_site ''mcp'' 10 ''stable''
       = (fst (fallbackSearch index_rejected_site ''mcp'' 10 ''stable''),
          ''https://microsoft.github.io/autogen/stable/searchindex.js''
            # snd (fallbackSearch index_rejected_site ''mcp'' 10 ''stable''))
   \<and> take 2 (snd (searchAutoGenDocs unreachable_site ''mcp'' 10 ''stable''))
       = [''https://microsoft.github.io/autogen/stable/searchindex.js'',
          ''https://microsoft.github.io/autogen/stable/search.html?q=mcp'']"
proof -
  have f: "fetch index_rejected_site (searchIndexUrl (getVersionUrl ''stable'')) = Inl FetchError"
    by (simp add: mcp_urls index_rejected_site_def)
  from search_never_throws[of unreachable_site "''mcp''" 10 "''stable''"] mcp_is_mcp
  have 1: "fst (searchAutoGenDocs unreachable_site ''mcp'' 10 ''stable'') = Inr []
           \<and> fst (fallbackSearch unreachable_site ''mcp'' 10 ''stable'') = Inr []"
    by (simp add: unreachable_site_def)
  from search_never_throws[of index_rejected_site "''mcp''" 10 "''stable''"] f
  have 2: "searchAutoGenDocs index_rejected_site ''mcp'' 10 ''stable''
       = (fst (fallbackSearch index_rejected_site ''mcp'' 10 ''stable''),
          ''https://microsoft.github.io/autogen/stable/searchindex.js''
            # snd (fallbackSearch index_rejected_site ''mcp'' 10 ''stable''))"
    by (simp add: mcp_urls)
  have u: "fetch unreachable_site (searchIndexUrl (getVersionUrl ''stable''))
             = Inr \<lparr>ok = False, body = None\<rparr>"
    by (simp add: unreachable_site_def)
  have un: "index_strategy unreachable_site \<lparr>ok = False, body = None\<rparr> ''mcp''
              (getVersionUrl ''stable'') 10 = Inr None"
    by (simp add: index_strategy_not_ok)
  have ue: "encodeURIComponent unreachable_site ''mcp'' = Some ''mcp''"
    by code_simp
  from search_never_throws[of unreachable_site "''mcp''" 10 "''stable''",
         THEN conjunct2, THEN conjunct2, THEN conjunct2, THEN conjunct1,
         THEN spec, THEN spec, THEN mp, of "\<lparr>ok = False, body = None\<rparr>" "''mcp''"]
       u un ue
  have 3: "take 2 (snd (searchAutoGenDocs unreachable_site ''mcp'' 10 ''stable''))
       = [''https://microsoft.github.io/autogen/stable/searchindex.js'',
          ''https://microsoft.github.io/autogen/stable/search.html?q=mcp'']"
    by (simp add: mcp_urls)
  from 1 2 3 mcp_is_mcp show ?thesis by simp
qed

section \<open>The limit\<close>

text \<open>
  Claim C3. For every site, query and version and every limit \<open>L \<ge> 0\<close>, an integer
  or not, the search returns a list of at most \<open>L\<close> entries, whichever strategy produced
  it.
\<close>

theorem length_at_most_limit:
  "0 \<le> limit \<Longrightarrow>
     \<exists>rs. fst (searchAutoGenDocs env query limit version) = Inr rs
          \<and> of_nat (length rs) \<le> limit"
  by (rule search_result_property) (simp_all add: performIndexSearch_length slice0_length)

theorem length_at_most_limit_witness:
  "(0::rat) \<le> 5 \<and>
   (\<exists>rs. fst (searchAutoGenDocs agent_site ''agent'' 5 ''stable'') = Inr rs
      \<and> (of_nat (length rs) :: rat) \<le> 5)"
  using length_at_most_limit[of 5 agent_site "''agent''" "''stable''"] by simp

lemma blank_two: "\<forall>c\<in>set ''  ''. is_space c"
  by (simp add: is_space_def)

section \<open>Queries of white space\<close>

text \<open>
  Claim C10. For a query that consists of white space only, the empty query included, the
  list of query terms is empty, the search of the index returns no result whatever the index
  holds, the first strategy never returns to the caller, and the result of the search is
  the result of the search page or of the crawler.
\<close>

theorem blank_query_skips_index:
  assumes blank: "\<forall>c\<in>set query. is_space c"
  shows "query_terms query = []
   \<and> performIndexSearch searchData query baseUrl limit = []
   \<and> (\<forall>resp rs. index_strategy env resp query baseUrl limit \<noteq> Inr (Some rs))
   \<and> (fst (searchAutoGenDocs env query limit version) = fst (fallbackSearch env query limit version)
      \<or> (\<exists>enc resp2 rs. encodeURIComponent env query = Some enc
            \<and> fetch env (searchUrl (getVersionUrl version) enc) = Inr resp2
            \<and> search_page_strategy env resp2 (getVersionUrl version) limit = Inr (Some rs)
            \<and> fst (searchAutoGenDocs env query limit version) = Inr rs))"
proof -
  have terms: "query_terms query = []"
    using blank by (rule query_terms_spaces)
  have none: "performIndexSearch sd query b limit = []" for sd b
    using terms by (rule performIndexSearch_no_terms)
  have strat: "index_strategy env resp query b limit \<noteq> Inr (Some rs)" for resp rs b
    using index_strategy_Some[of env resp query b limit rs] none by auto
  have later: "fst (searchAutoGenDocs env query limit version) = fst (fallbackSearch env query limit version)
      \<or> (\<exists>enc resp2 rs. encodeURIComponent env query = Some enc
            \<and> fetch env (searchUrl (getVersionUrl version) enc) = Inr resp2
            \<and> search_page_strategy env resp2 (getVersionUrl version) limit = Inr (Some rs)
            \<and> fst (searchAutoGenDocs env query limit version) = Inr rs)"
  proof (cases rule: searchAutoGenDocs_cases[of env query limit version])
    case crawl_first
    then show ?thesis by simp
  next
    case (index resp rs)
    with strat show ?thesis by simp
  next
    case (page resp enc resp2 rs)
    then show ?thesis by auto
  next
    case (crawl_last resp enc)
    then show ?thesis by simp
  qed
  from terms none strat later show ?thesis by blast
qed

theorem blank_query_skips_index_witness:
  "is_space (CHR '' '')
   \<and> performIndexSearch agent_index ''  '' (getVersionUrl ''stable'') 5 = []
   \<and> fst (searchAutoGenDocs agent_site ''  '' 5 ''stable'')
       = fst (fallbackSearch agent_site ''  '' 5 ''stable'')"
proof -
  have nok: "fetch agent_site (searchUrl (getVersionUrl ''stable'') enc)
               = Inr \<lparr>ok = False, body = None\<rparr>" for enc
    by (simp add: agent_site_def searchUrl_def getVersionUrl_def AUTOGEN_BASE_URL_def)
  show ?thesis
    using blank_query_skips_index[OF blank_two, of agent_index "getVersionUrl ''stable''" 5
            agent_site "''stable''"] blank_two nok
    by (auto simp: search_page_strategy_not_ok)
qed

section \<open>What the scans push\<close>

text \<open>
  Every scan only appends entries, and each entry it appends has a known shape. The lemmas
  below carry a property of such entries from the results so far to the results of a scan,
  of a page, of the crawler and of the search.
\<close>

lemma substring0_length: "length (substring0 s n) \<le> n"
  by (simp add: substring0_def)

lemma link_snippet_ok: "link_snippet e \<noteq> [] \<and> length (link_snippet e) \<le> 200"
  by (simp add: link_snippet_def Let_def substring0_length)

lemma match_paren_nonempty: "match_paren s = Some g \<Longrightarrow> g \<noteq> []"
  by (induction s) (auto simp: paren_group_def Let_def split: if_splits option.splits)

lemma search_link_snippet_ok:
  "search_link_snippet e = [] \<or> length (search_link_snippet e) \<le> 200
     \<or> search_link_snippet e = search_link_type e"
  by (auto simp: search_link_snippet_def Let_def substring0_length split: option.splits)

lemma link_scan_pres:
  assumes push: "\<And>t u s. (\<exists>idopt. u = with_fragment (page_url p) idopt) \<or> str_includes u DOC_DOMAIN
                   \<Longrightarrow> s \<noteq> [] \<Longrightarrow> length s \<le> 200 \<or> s = page_type p @ '': '' @ t
                   \<Longrightarrow> P \<lparr>title = t, url = u, snippet = s, type = page_type p\<rparr>"
  shows "\<forall>r\<in>set rs. P r \<Longrightarrow> \<forall>r\<in>set (link_scan isMcp ql limit baseUrl p es rs). P r"
proof (induction es arbitrary: rs)
  case Nil
  then show ?case by simp
next
  case (Cons e es)
  show ?case
    apply (simp only: link_scan.simps Let_def split: if_split option.split)
    apply (intro conjI impI allI Cons.IH Cons.prems)
    using Cons.prems
    apply (auto intro!: push simp: link_snippet_ok)
    done
qed

lemma search_links_scan_pres:
  assumes push: "\<And>t u s ty. str_includes u DOC_DOMAIN \<Longrightarrow> s \<noteq> []
                   \<Longrightarrow> length s \<le> 200 \<or> s = ty
                   \<Longrightarrow> P \<lparr>title = t, url = u, snippet = s, type = ty\<rparr>"
  shows "\<forall>r\<in>set rs. P r \<Longrightarrow> \<forall>r\<in>set (search_links_scan baseUrl limit es rs). P r"
proof (induction es arbitrary: rs)
  case Nil
  then show ?case by simp
next
  case (Cons e es)
  show ?case
    apply (simp only: search_links_scan.simps Let_def split: if_split option.split)
    apply (intro conjI impI allI Cons.IH Cons.prems)
    using Cons.prems search_link_snippet_ok[of e]
    apply (auto intro!: push)
    done
qed

lemma substring0_nonempty: "0 < n \<Longrightarrow> s \<noteq> [] \<Longrightarrow> substring0 s n \<noteq> []"
  by (simp add: substring0_def)

lemma heading_scan_pres:
  assumes push: "\<And>t u s. (\<exists>idopt. u = with_fragment (page_url p) idopt) \<or> str_includes u DOC_DOMAIN
                   \<Longrightarrow> s \<noteq> [] \<Longrightarrow> length s \<le> 200 \<or> s = page_type p @ '': '' @ t
                   \<Longrightarrow> P \<lparr>title = t, url = u, snippet = s, type = page_type p\<rparr>"
  shows "\<forall>r\<in>set rs. P r \<Longrightarrow> \<forall>r\<in>set (heading_scan ql limit p es rs). P r"
proof (induction es arbitrary: rs)
  case Nil
  then show ?case by simp
next
  case (Cons e es)
  show ?case
    apply (simp only: heading_scan.simps Let_def split: if_split)
    apply (intro conjI impI Cons.IH Cons.prems)
    using Cons.prems
    apply (auto intro!: push simp: substring0_length)
    done
qed

lemma block_scan_pres:
  assumes push: "\<And>t u s. (\<exists>idopt. u = with_fragment (page_url p) idopt) \<or> str_includes u DOC_DOMAIN
                   \<Longrightarrow> s \<noteq> [] \<Longrightarrow> length s \<le> 200 \<or> s = page_type p @ '': '' @ t
                   \<Longrightarrow> P \<lparr>title = t, url = u, snippet = s, type = page_type p\<rparr>"
  shows "\<forall>r\<in>set rs. P r \<Longrightarrow> \<forall>r\<in>set (block_scan ql limit p pt es rs). P r"
proof (induction es arbitrary: rs)
  case Nil
  then show ?case by simp
next
  case (Cons e es)
  show ?case
    apply (simp only: block_scan.simps Let_def split: if_split)
    apply (intro conjI impI Cons.IH Cons.prems)
    using Cons.prems
    apply (auto intro!: push simp: substring0_length substring0_def)
    done
qed

lemma related_scan_pres:
  assumes push: "\<And>t u s. (\<exists>idopt. u = with_fragment (page_url p) idopt) \<or> str_includes u DOC_DOMAIN
                   \<Longrightarrow> s \<noteq> [] \<Longrightarrow> length s \<le> 200 \<or> s = page_type p @ '': '' @ t
                   \<Longrightarrow> P \<lparr>title = t, url = u, snippet = s, type = page_type p\<rparr>"
  shows "\<forall>r\<in>set rs. P r \<Longrightarrow> \<forall>r\<in>set (related_scan term limit p es rs). P r"
proof (induction es arbitrary: rs)
  case Nil
  then show ?case by simp
next
  case (Cons e es)
  show ?case
    apply (simp only: related_scan.simps Let_def split: if_split)
    apply (intro conjI impI Cons.IH Cons.prems)
    using Cons.prems
    apply (auto intro!: push simp: substring0_length substring0_def)
    done
qed

lemma index_loop_pres:
  assumes push: "\<And>t d. P \<lparr>title = t, url = baseUrl @ ''/'' @ d @ ''.html'',
                            snippet = doc_type d, type = doc_type d\<rparr>"
  shows "\<forall>r\<in>set rs. P r \<Longrightarrow> \<forall>r\<in>set (fst (index_loop qt baseUrl limit ts ds rs)). P r"
proof (induction ts arbitrary: ds rs)
  case Nil
  then show ?case by simp
next
  case (Cons t ts)
  show ?case
    apply (simp only: index_loop.simps split: if_split jsval.split)
    apply (intro conjI impI allI Cons.IH Cons.prems)
    using Cons.prems
    using push apply auto
    done
qed

lemma related_terms_scan_pres:
  assumes push: "\<And>t u s. (\<exists>idopt. u = with_fragment (page_url p) idopt) \<or> str_includes u DOC_DOMAIN
                   \<Longrightarrow> s \<noteq> [] \<Longrightarrow> length s \<le> 200 \<or> s = page_type p @ '': '' @ t
                   \<Longrightarrow> P \<lparr>title = t, url = u, snippet = s, type = page_type p\<rparr>"
  shows "\<forall>r\<in>set rs. P r \<Longrightarrow> \<forall>r\<in>set (related_terms_scan limit p doc rs). P r"
proof -
  have step: "\<forall>r\<in>set rs. P r \<Longrightarrow>
      \<forall>r\<in>set (fold (\<lambda>term rs.
             if of_nat (length rs) \<ge> limit then rs
             else if str_includes (toLowerCase (root_text doc)) term
                  then related_scan term limit p (headings_and_blocks doc) rs
                  else rs) tms rs). P r" for tms rs
  proof (induction tms arbitrary: rs)
    case Nil
    then show ?case by simp
  next
    case (Cons tm tms)
    have "\<forall>r\<in>set (related_scan tm limit p (headings_and_blocks doc) rs). P r"
      using push Cons.prems by (rule related_scan_pres)
    with Cons.prems show ?case
      by (simp only: fold_simps) (intro Cons.IH, simp)
  qed
  assume "\<forall>r\<in>set rs. P r"
  then show ?thesis unfolding related_terms_scan_def by (rule step)
qed

lemma scan_page_pres:
  assumes push: "\<And>t u s. (\<exists>idopt. u = with_fragment (page_url p) idopt) \<or> str_includes u DOC_DOMAIN
                   \<Longrightarrow> s \<noteq> [] \<Longrightarrow> length s \<le> 200 \<or> s = page_type p @ '': '' @ t
                   \<Longrightarrow> P \<lparr>title = t, url = u, snippet = s, type = page_type p\<rparr>"
      and rs: "\<forall>r\<in>set rs. P r"
  shows "\<forall>r\<in>set (scan_page isMcp ql limit baseUrl p doc rs). P r"
proof -
  let ?pt = "if title_text doc \<noteq> [] then title_text doc else h1_first_text doc"
  let ?r1 = "if str_includes (toLowerCase (content_text doc)) ql
             then block_scan ql limit p ?pt (blocks doc) (heading_scan ql limit p (headings doc) rs)
             else rs"
  let ?r2 = "if isMcp then related_terms_scan limit p doc ?r1 else ?r1"
  have h: "\<forall>r\<in>set (heading_scan ql limit p (headings doc) rs). P r"
    using push rs by (rule heading_scan_pres)
  have b: "\<forall>r\<in>set (block_scan ql limit p ?pt (blocks doc)
                       (heading_scan ql limit p (headings doc) rs)). P r"
    using push h by (rule block_scan_pres)
  from b rs have r1: "\<forall>r\<in>set ?r1. P r" by simp
  have "\<forall>r\<in>set (related_terms_scan limit p doc ?r1). P r"
    using push r1 by (rule related_terms_scan_pres)
  with r1 have r2: "\<forall>r\<in>set ?r2. P r" by simp
  have "\<forall>r\<in>set (link_scan isMcp ql limit baseUrl p (links doc) ?r2). P r"
    using push r2 by (rule link_scan_pres)
  then show ?thesis by (simp add: scan_page_def Let_def)
qed

lemma page_body_cases:
  "(case page_body env isMcp ql limit baseUrl p rs of Inl e \<Rightarrow> rs | Inr rs' \<Rightarrow> rs') = rs
   \<or> (\<exists>html. (case page_body env isMcp ql limit baseUrl p rs of Inl e \<Rightarrow> rs | Inr rs' \<Rightarrow> rs')
               = scan_page isMcp ql limit baseUrl p (load env html) rs)"
proof (cases "fetch env (page_url p)")
  case (Inl e)
  then show ?thesis by (simp add: page_body_def)
next
  case (Inr resp)
  show ?thesis
  proof (cases "ok resp")
    case False
    with Inr show ?thesis by (simp add: page_body_def)
  next
    case True
    with Inr show ?thesis by (cases "body resp") (auto simp: page_body_def)
  qed
qed

lemma page_step_pres:
  assumes push: "\<And>t u s. (\<exists>idopt. u = with_fragment (page_url p) idopt) \<or> str_includes u DOC_DOMAIN
                   \<Longrightarrow> s \<noteq> [] \<Longrightarrow> length s \<le> 200 \<or> s = page_type p @ '': '' @ t
                   \<Longrightarrow> P \<lparr>title = t, url = u, snippet = s, type = page_type p\<rparr>"
      and rs: "\<forall>r\<in>set rs. P r"
  shows "\<forall>r\<in>set (case page_body env isMcp ql limit baseUrl p rs of
                     Inl e \<Rightarrow> rs | Inr rs' \<Rightarrow> rs'). P r"
proof -
  have scan: "\<forall>r\<in>set (scan_page isMcp ql limit baseUrl p doc rs). P r" for doc
    using push rs by (rule scan_page_pres)
  from page_body_cases[where env = env and isMcp = isMcp and ql = ql and limit = limit
                         and baseUrl = baseUrl and p = p and rs = rs] show ?thesis
  proof
    assume "(case page_body env isMcp ql limit baseUrl p rs of Inl e \<Rightarrow> rs | Inr rs' \<Rightarrow> rs') = rs"
    with rs show ?thesis by simp
  next
    assume "\<exists>html. (case page_body env isMcp ql limit baseUrl p rs of Inl e \<Rightarrow> rs | Inr rs' \<Rightarrow> rs')
               = scan_page isMcp ql limit baseUrl p (load env html) rs"
    then obtain html where
      "(case page_body env isMcp ql limit baseUrl p rs of Inl e \<Rightarrow> rs | Inr rs' \<Rightarrow> rs')
         = scan_page isMcp ql limit baseUrl p (load env html) rs" ..
    with scan[of "load env html"] show ?thesis by simp
  qed
qed

lemma page_loop_pres:
  assumes push: "\<And>p t u s. p \<in> set pages
                   \<Longrightarrow> (\<exists>idopt. u = with_fragment (page_url p) idopt) \<or> str_includes u DOC_DOMAIN
                   \<Longrightarrow> s \<noteq> [] \<Longrightarrow> length s \<le> 200 \<or> s = page_type p @ '': '' @ t
                   \<Longrightarrow> P \<lparr>title = t, url = u, snippet = s, type = page_type p\<rparr>"
  shows "\<forall>r\<in>set rs. P r \<Longrightarrow>
         \<forall>r\<in>set (fst (page_loop env isMcp ql limit baseUrl pages rs)). P r"
  using push
proof (induction pages arbitrary: rs)
  case Nil
  then show ?case by simp
next
  case (Cons page pages)
  have here: "\<forall>r\<in>set (case page_body env isMcp ql limit baseUrl page rs of
                     Inl e \<Rightarrow> rs | Inr rs' \<Rightarrow> rs'). P r"
    by (rule page_step_pres[OF Cons.prems(2) Cons.prems(1)]) simp_all
  have "\<forall>r\<in>set (fst (page_loop env isMcp ql limit baseUrl pages
            (case page_body env isMcp ql limit baseUrl page rs of
               Inl e \<Rightarrow> rs | Inr rs' \<Rightarrow> rs'))). P r"
    by (rule Cons.IH[OF here]) (rule Cons.prems(2), simp_all)
  with Cons.prems(1) show ?case
    by (simp add: page_loop_fst_Cons del: page_loop.simps)
qed

lemma uniqueResults_subset: "set (uniqueResults rs) \<subseteq> set rs"
  by (auto simp: uniqueResults_def in_set_enumerate_eq)

lemma sort_results_set: "set (sort_results qt rs) = set rs"
  by (simp add: sort_results_def)

lemma performIndexSearch_subset:
  "\<exists>ts ds. set (performIndexSearch sd q baseUrl limit)
             \<subseteq> set (fst (index_loop (query_terms q) baseUrl limit ts ds []))"
proof (cases "titles sd")
  case None
  then show ?thesis by (simp add: performIndexSearch_def slice0_Nil)
next
  case ts: (Some ts)
  show ?thesis
  proof (cases "docnames sd")
    case None
    with ts show ?thesis by (simp add: performIndexSearch_def slice0_Nil)
  next
    case ds: (Some ds)
    obtain rs x where loop: "index_loop (query_terms q) baseUrl limit ts ds [] = (rs, x)"
      by (cases "index_loop (query_terms q) baseUrl limit ts ds []")
    have "set (performIndexSearch sd q baseUrl limit) \<subseteq> set rs"
      using ts ds loop slice0_subset[of rs limit]
            slice0_subset[of "sort_results (query_terms q) rs" limit]
      by (cases x) (simp_all add: performIndexSearch_def sort_results_set)
    with loop show ?thesis by (metis fst_conv)
  qed
qed

lemma performIndexSearch_pres:
  assumes push: "\<And>t d. P \<lparr>title = t, url = baseUrl @ ''/'' @ d @ ''.html'',
                            snippet = doc_type d, type = doc_type d\<rparr>"
  shows "\<forall>r\<in>set (performIndexSearch sd q baseUrl limit). P r"
proof -
  have loop: "\<forall>r\<in>set (fst (index_loop (query_terms q) baseUrl limit ts ds [])). P r" for ts ds
    by (rule index_loop_pres[where P = P, OF push]) simp
  from performIndexSearch_subset[of sd q baseUrl limit] loop show ?thesis by blast
qed

lemma search_entries_property:
  assumes index: "\<And>t d. P \<lparr>title = t, url = getVersionUrl v @ ''/'' @ d @ ''.html'',
                            snippet = doc_type d, type = doc_type d\<rparr>"
      and page: "\<And>t u s ty. str_includes u DOC_DOMAIN \<Longrightarrow> s \<noteq> []
                   \<Longrightarrow> length s \<le> 200 \<or> s = ty
                   \<Longrightarrow> P \<lparr>title = t, url = u, snippet = s, type = ty\<rparr>"
      and crawl: "\<And>p t u s.
                   p \<in> set (pagesToSearch (isMcpQuery (toLowerCase q)) (getVersionUrl v))
                   \<Longrightarrow> (\<exists>idopt. u = with_fragment (page_url p) idopt) \<or> str_includes u DOC_DOMAIN
                   \<Longrightarrow> s \<noteq> [] \<Longrightarrow> length s \<le> 200 \<or> s = page_type p @ '': '' @ t
                   \<Longrightarrow> P \<lparr>title = t, url = u, snippet = s, type = page_type p\<rparr>"
  shows "\<exists>rs. fst (searchAutoGenDocs env q limit v) = Inr rs \<and> (\<forall>r\<in>set rs. P r)"
proof (rule search_result_property)
  show "\<forall>r\<in>set (performIndexSearch sd q (getVersionUrl v) limit). P r" for sd
    using index by (rule performIndexSearch_pres)
next
  fix els
  have "\<forall>r\<in>set (search_links_scan (getVersionUrl v) limit els []). P r"
    by (rule search_links_scan_pres[where P = P, OF page]) simp_all
  then show "\<forall>r\<in>set (slice0 (search_links_scan (getVersionUrl v) limit els []) limit). P r"
    using slice0_subset[of "search_links_scan (getVersionUrl v) limit els []" limit] by blast
next
  have "\<forall>r\<in>set (crawl_results env q limit v). P r"
    unfolding crawl_results_def by (rule page_loop_pres[where P = P, OF crawl]) simp_all
  then show "\<forall>r\<in>set (slice0 (uniqueResults (crawl_results env q limit v)) limit). P r"
    using slice0_subset[of "uniqueResults (crawl_results env q limit v)" limit]
          uniqueResults_subset[of "crawl_results env q limit v"] by blast
qed

lemma base_in_domain: "str_includes (AUTOGEN_BASE_URL @ rest) DOC_DOMAIN"
proof -
  have "AUTOGEN_BASE_URL @ rest = ''https://'' @ DOC_DOMAIN @ rest"
    by (simp add: AUTOGEN_BASE_URL_def DOC_DOMAIN_def)
  then show ?thesis
    unfolding str_includes_def sublist_def by blast
qed

lemma str_includes_append: "str_includes s t \<Longrightarrow> str_includes (s @ r) t"
  unfolding str_includes_def sublist_def by (metis append.assoc)

lemma with_fragment_in_domain:
  "str_includes u DOC_DOMAIN \<Longrightarrow> str_includes (with_fragment u idopt) DOC_DOMAIN"
  by (auto simp: with_fragment_def str_includes_append split: option.splits)

lemma pagesToSearch_in_domain:
  "p \<in> set (pagesToSearch isMcp (getVersionUrl v)) \<Longrightarrow> str_includes (page_url p) DOC_DOMAIN"
  using base_in_domain
  by (cases isMcp)
     (auto simp: pagesToSearch_def mcpBaseUrl_def getVersionUrl_def
           simp flip: AUTOGEN_BASE_URL_def)

lemma agent_search:
  "searchAutoGenDocs agent_site ''agent'' 5 ''stable'' =
     (Inr [\<lparr>title = ''Agent Introduction'',
            url = ''https://microsoft.github.io/autogen/stable/python/agent-intro.html'',
            snippet = ''API Reference'', type = ''API Reference''\<rparr>],
      [''https://microsoft.github.io/autogen/stable/searchindex.js''])"
  by code_simp

section \<open>The documentation domain\<close>

lemma foreign_links_search:
  "fst (searchAutoGenDocs foreign_links_site ''agent'' 5 ''stable'') =
     Inr [\<lparr>title = ''Agent mirror'', url = ''https://evil.example/microsoft.github.io/autogen/x'',
            snippet = ''AutoGen documentation'', type = []\<rparr>,
          \<lparr>title = ''Agent of dev'', url = ''https://microsoft.github.io/autogen/dev/agent.html'',
            snippet = ''AutoGen documentation'', type = []\<rparr>]"
  by code_simp

lemma foreign_links_outside:
  "\<not> startsWith ''https://evil.example/microsoft.github.io/autogen/x''
        ''https://microsoft.github.io/autogen''"
  "\<not> startsWith ''https://microsoft.github.io/autogen/dev/agent.html''
        (getVersionUrl ''stable'')"
  by code_simp+

text \<open>
  Claim C8, as stated, fails: the two link scans keep a link whenever its absolute URL
  contains the string \<open>microsoft.github.io/autogen\<close> anywhere. A link to another version of
  the documentation is returned for the version \<open>stable\<close>, and so is a link to another
  host whose path contains the string.
\<close>

theorem foreign_urls_returned_counterexample:
  "fst (searchAutoGenDocs foreign_links_site ''agent'' 5 ''stable'') =
     Inr [\<lparr>title = ''Agent mirror'', url = ''https://evil.example/microsoft.github.io/autogen/x'',
            snippet = ''AutoGen documentation'', type = []\<rparr>,
          \<lparr>title = ''Agent of dev'', url = ''https://microsoft.github.io/autogen/dev/agent.html'',
            snippet = ''AutoGen documentation'', type = []\<rparr>]
   \<and> \<not> startsWith ''https://evil.example/microsoft.github.io/autogen/x''
          ''https://microsoft.github.io/autogen''
   \<and> \<not> startsWith ''https://microsoft.github.io/autogen/dev/agent.html''
          (getVersionUrl ''stable'')"
  using foreign_links_search foreign_links_outside by simp

text \<open>
  Claim C8, amended. Every entry that the search returns, from whichever strategy, has a
  URL that contains the string \<open>microsoft.github.io/autogen\<close>, which is the test that the
  code applies to a link. The URL of an entry of the index strategy starts with the base
  URL of the requested version. The version in the URL of a link is not tested: a link to
  another version of the documentation is kept.
\<close>

theorem urls_in_documentation_domain:
  "(\<exists>rs. fst (searchAutoGenDocs env query limit version) = Inr rs
        \<and> (\<forall>r\<in>set rs. str_includes (url r) DOC_DOMAIN))
   \<and> (\<forall>r\<in>set (performIndexSearch searchData query (getVersionUrl version) limit).
         startsWith (url r) (getVersionUrl version))"
proof
  show "\<exists>rs. fst (searchAutoGenDocs env query limit version) = Inr rs
        \<and> (\<forall>r\<in>set rs. str_includes (url r) DOC_DOMAIN)"
  proof (rule search_entries_property)
    show "str_includes (url \<lparr>title = t, url = getVersionUrl version @ ''/'' @ d @ ''.html'',
                            snippet = doc_type d, type = doc_type d\<rparr>) DOC_DOMAIN" for t d
      using base_in_domain[of "''/'' @ version @ ''/'' @ d @ ''.html''"]
      by (simp add: getVersionUrl_def)
  next
    show "str_includes u DOC_DOMAIN \<Longrightarrow>
          str_includes (url \<lparr>title = t, url = u, snippet = s, type = ty\<rparr>) DOC_DOMAIN"
      for t u s ty
      by simp
  next
    fix p t u s
    assume p: "p \<in> set (pagesToSearch (isMcpQuery (toLowerCase query)) (getVersionUrl version))"
       and u: "(\<exists>idopt. u = with_fragment (page_url p) idopt) \<or> str_includes u DOC_DOMAIN"
    from p have "str_includes (page_url p) DOC_DOMAIN" by (rule pagesToSearch_in_domain)
    with u show "str_includes (url \<lparr>title = t, url = u, snippet = s, type = page_type p\<rparr>)
                   DOC_DOMAIN"
      by (auto simp: with_fragment_in_domain)
  qed
next
  show "\<forall>r\<in>set (performIndexSearch searchData query (getVersionUrl version) limit).
          startsWith (url r) (getVersionUrl version)"
    by (rule performIndexSearch_pres) (simp add: startsWith_def)
qed

theorem urls_in_documentation_domain_witness:
  "str_includes ''https://microsoft.github.io/autogen/dev/agent.html'' DOC_DOMAIN
   \<and> str_includes ''https://microsoft.github.io/autogen/stable/python/agent-intro.html''
        DOC_DOMAIN"
  using urls_in_documentation_domain[of foreign_links_site "''agent''" 5 "''stable''"]
        urls_in_documentation_domain[of agent_site "''agent''" 5 "''stable''"]
  by (simp add: foreign_links_search agent_search)

section \<open>Snippets\<close>

lemma long_annotation_search:
  "fst (searchAutoGenDocs long_annotation_site ''agent'' 5 ''stable'') =
     Inr [\<lparr>title = ''Agent'', url = ''https://microsoft.github.io/autogen/stable/agent.html'',
            snippet = replicate 201 (CHR ''x''), type = replicate 201 (CHR ''x'')\<rparr>]"
  by code_simp

lemma long_heading_search:
  "fst (searchAutoGenDocs long_heading_site ''agent'' 5 ''stable'') =
     Inr [\<lparr>title = ''agent '' @ replicate 200 (CHR ''x''),
            url = ''https://microsoft.github.io/autogen/stable/user-guide/index.html'',
            snippet = ''User Guide: agent '' @ replicate 200 (CHR ''x''), type = ''User Guide''\<rparr>]"
  by code_simp

text \<open>
  Claim C5, as stated, fails: the snippet is not always at most 200 characters long. On
  the search page the snippet is the whole annotation in parentheses, here 201 characters,
  and in the heading scan of the crawler the snippet falls back to the type of the page, a
  colon and the whole heading, here 218 characters.
\<close>

theorem snippet_bound_counterexample:
  "fst (searchAutoGenDocs long_annotation_site ''agent'' 5 ''stable'') =
     Inr [\<lparr>title = ''Agent'', url = ''https://microsoft.github.io/autogen/stable/agent.html'',
            snippet = replicate 201 (CHR ''x''), type = replicate 201 (CHR ''x'')\<rparr>]
   \<and> \<not> length (replicate 201 (CHR ''x'')) \<le> 200
   \<and> fst (searchAutoGenDocs long_heading_site ''agent'' 5 ''stable'') =
     Inr [\<lparr>title = ''agent '' @ replicate 200 (CHR ''x''),
            url = ''https://microsoft.github.io/autogen/stable/user-guide/index.html'',
            snippet = ''User Guide: agent '' @ replicate 200 (CHR ''x''), type = ''User Guide''\<rparr>]
   \<and> \<not> length (''User Guide: agent '' @ replicate 200 (CHR ''x'')) \<le> 200"
  using long_annotation_search long_heading_search by simp

text \<open>
  Claim C5, amended. Every entry that the search returns has a snippet that is not empty,
  and the snippet is at most 200 characters long unless it is the type of the entry (the
  annotation in parentheses of the search page, or the category of an index entry) or the
  type of the entry, a colon, a space and the title of the entry (the fallback of the
  heading scan).
\<close>

theorem snippet_nonempty_and_bounded:
  "\<exists>rs. fst (searchAutoGenDocs env query limit version) = Inr rs
        \<and> (\<forall>r\<in>set rs. snippet r \<noteq> []
               \<and> (length (snippet r) \<le> 200 \<or> snippet r = type r
                   \<or> snippet r = type r @ '': '' @ title r))"
proof (rule search_entries_property)
  fix t d
  let ?r = "\<lparr>title = t, url = getVersionUrl version @ ''/'' @ d @ ''.html'',
             snippet = doc_type d, type = doc_type d\<rparr>"
  show "snippet ?r \<noteq> [] \<and> (length (snippet ?r) \<le> 200 \<or> snippet ?r = type ?r
          \<or> snippet ?r = type ?r @ '': '' @ title ?r)"
    by (simp add: doc_type_def)
next
  fix t u s ty
  let ?r = "\<lparr>title = t, url = u, snippet = s, type = ty\<rparr>"
  assume "s \<noteq> []" "length s \<le> 200 \<or> s = ty"
  then show "snippet ?r \<noteq> [] \<and> (length (snippet ?r) \<le> 200 \<or> snippet ?r = type ?r
          \<or> snippet ?r = type ?r @ '': '' @ title ?r)"
    by auto
next
  fix p t u s
  let ?r = "\<lparr>title = t, url = u, snippet = s, type = page_type p\<rparr>"
  assume "s \<noteq> []" "length s \<le> 200 \<or> s = page_type p @ '': '' @ t"
  then show "snippet ?r \<noteq> [] \<and> (length (snippet ?r) \<le> 200 \<or> snippet ?r = type ?r
          \<or> snippet ?r = type ?r @ '': '' @ title ?r)"
    by auto
qed

theorem snippet_nonempty_and_bounded_witness:
  "replicate 201 (CHR ''x'') \<noteq> []
   \<and> (length (replicate 201 (CHR ''x'')) \<le> 200
      \<or> snippet \<lparr>title = ''Agent'', url = ''https://microsoft.github.io/autogen/stable/agent.html'',
            snippet = replicate 201 (CHR ''x''), type = replicate 201 (CHR ''x'')\<rparr>
          = type \<lparr>title = ''Agent'', url = ''https://microsoft.github.io/autogen/stable/agent.html'',
            snippet = replicate 201 (CHR ''x''), type = replicate 201 (CHR ''x'')\<rparr>)"
  using snippet_nonempty_and_bounded[of long_annotation_site "''agent''" 5 "''stable''"]
  by (simp add: long_annotation_search)

section \<open>Deduplication by URL\<close>

lemma findIndex_bounds: "- 1 \<le> findIndex p xs \<and> findIndex p xs < int (length xs)"
  by (induction xs) (auto simp: Let_def)

lemma findIndex_neg_iff: "(findIndex p xs < 0) = (\<forall>x\<in>set xs. \<not> p x)"
proof (induction xs)
  case Nil
  show ?case by simp
next
  case (Cons a xs)
  show ?case
  proof (cases "p a")
    case True
    then show ?thesis by simp
  next
    case False
    have "(findIndex p (a # xs) < 0) = (findIndex p xs < 0)"
      using False findIndex_bounds[of p xs] by (simp add: Let_def)
    with Cons.IH False show ?thesis by simp
  qed
qed

lemma findIndex_append:
  "findIndex p (pre @ xs) =
     (if \<exists>y\<in>set pre. p y then findIndex p pre
      else if findIndex p xs < 0 then - 1 else int (length pre) + findIndex p xs)"
proof (induction pre)
  case Nil
  show ?case using findIndex_bounds[of p xs] by auto
next
  case (Cons a pre)
  show ?case
  proof (cases "p a")
    case True
    then show ?thesis by simp
  next
    case False
    show ?thesis
    proof (cases "\<exists>y\<in>set pre. p y")
      case True
      with False Cons.IH show ?thesis by (simp add: Let_def)
    next
      case none: False
      then have neg: "findIndex p pre < 0" by (simp add: findIndex_neg_iff)
      show ?thesis
      proof (cases "findIndex p xs < 0")
        case True
        with False none Cons.IH show ?thesis by (simp add: Let_def)
      next
        case found: False
        with False none Cons.IH show ?thesis by (simp add: Let_def)
      qed
    qed
  qed
qed

lemma findIndex_here:
  assumes "p x"
  shows "(findIndex p (pre @ x # xs) = int (length pre)) = (\<forall>y\<in>set pre. \<not> p y)"
proof (cases "\<exists>y\<in>set pre. p y")
  case True
  then have "findIndex p (pre @ x # xs) = findIndex p pre" by (simp add: findIndex_append)
  with True findIndex_bounds[of p pre] show ?thesis by auto
next
  case False
  with assms have "findIndex p (pre @ x # xs) = int (length pre)"
    by (simp add: findIndex_append)
  with False show ?thesis by simp
qed

lemma first_by_url_seen:
  "set seen = set seen' \<Longrightarrow> first_by_url seen rs = first_by_url seen' rs"
proof (induction rs arbitrary: seen seen')
  case Nil
  show ?case by simp
next
  case (Cons r rs)
  from Cons.prems have mem: "(url r \<in> set seen) = (url r \<in> set seen')" by blast
  from Cons.prems have "set (url r # seen) = set (url r # seen')" by simp
  then have more: "first_by_url (url r # seen) rs = first_by_url (url r # seen') rs"
    by (rule Cons.IH)
  have same: "first_by_url seen rs = first_by_url seen' rs"
    using Cons.prems by (rule Cons.IH)
  from mem more same show ?case by simp
qed

lemma unique_from:
  "map snd (filter (\<lambda>(index, result). int index = findIndex (\<lambda>r. url r = url result) (pre @ xs))
                   (enumerate (length pre) xs))
   = first_by_url (map url pre) xs"
proof (induction xs arbitrary: pre)
  case Nil
  show ?case by simp
next
  case (Cons x xs)
  have here: "(int (length pre) = findIndex (\<lambda>r. url r = url x) (pre @ x # xs))
                = (url x \<notin> set (map url pre))"
  proof -
    have "(findIndex (\<lambda>r. url r = url x) (pre @ x # xs) = int (length pre))
            = (\<forall>y\<in>set pre. url y \<noteq> url x)"
      by (rule findIndex_here) simp
    moreover have "(\<forall>y\<in>set pre. url y \<noteq> url x) = (url x \<notin> set (map url pre))"
      unfolding set_map image_iff by metis
    ultimately have "(findIndex (\<lambda>r. url r = url x) (pre @ x # xs) = int (length pre))
            = (url x \<notin> set (map url pre))"
      by (rule trans)
    then show ?thesis by (simp only: eq_commute[of "int (length pre)"])
  qed
  have rest: "map snd (filter (\<lambda>(index, result). int index = findIndex (\<lambda>r. url r = url result) (pre @ x # xs))
                   (enumerate (Suc (length pre)) xs))
              = first_by_url (map url (pre @ [x])) xs"
    using Cons.IH[of "pre @ [x]"] by simp
  have split: "map snd (filter (\<lambda>(index, result). int index = findIndex (\<lambda>r. url r = url result) (pre @ x # xs))
                   (enumerate (length pre) (x # xs)))
      = (if url x \<notin> set (map url pre)
         then x # first_by_url (map url (pre @ [x])) xs
         else first_by_url (map url (pre @ [x])) xs)"
    by (simp only: enumerate_simps filter.simps prod.case here rest list.map snd_conv if_distrib
             split: if_split) simp
  show ?case
  proof (cases "url x \<in> set (map url pre)")
    case True
    then have "set (map url (pre @ [x])) = set (map url pre)" by auto
    then have "first_by_url (map url (pre @ [x])) xs = first_by_url (map url pre) xs"
      by (rule first_by_url_seen)
    with True split show ?thesis by (simp only: first_by_url.simps if_True if_False not_True_eq_False)
  next
    case False
    have "set (map url (pre @ [x])) = set (url x # map url pre)" by auto
    then have "first_by_url (map url (pre @ [x])) xs = first_by_url (url x # map url pre) xs"
      by (rule first_by_url_seen)
    with False split show ?thesis by (simp only: first_by_url.simps if_True if_False not_False_eq_True)
  qed
qed

lemma uniqueResults_first: "uniqueResults rs = first_by_url [] rs"
  using unique_from[of "[]" rs] by (simp add: uniqueResults_def)

lemma first_by_url_distinct:
  "distinct (map url (first_by_url seen rs)) \<and> set (map url (first_by_url seen rs)) \<inter> set seen = {}"
proof (induction rs arbitrary: seen)
  case Nil
  show ?case by simp
next
  case (Cons r rs)
  show ?case
  proof (cases "url r \<in> set seen")
    case True
    with Cons.IH[of seen] show ?thesis by simp
  next
    case False
    with Cons.IH[of "url r # seen"] show ?thesis by auto
  qed
qed

lemma slice0_distinct: "distinct (map f xs) \<Longrightarrow> distinct (map f (slice0 xs l))"
proof -
  assume d: "distinct (map f xs)"
  obtain n where n: "slice0 xs l = take n xs" using slice0_take[of xs l] by blast
  from d have "distinct (take n (map f xs))" by (rule distinct_take)
  with n show ?thesis by (simp add: take_map)
qed

lemma duplicate_links_search:
  "fst (searchAutoGenDocs duplicate_links_site ''agent'' 5 ''stable'') =
     Inr [\<lparr>title = ''Agent'', url = ''https://microsoft.github.io/autogen/stable/agent.html'',
            snippet = ''AutoGen documentation'', type = []\<rparr>,
          \<lparr>title = ''More on agents'',
            url = ''https://microsoft.github.io/autogen/stable/agent.html'',
            snippet = ''AutoGen documentation'', type = []\<rparr>]"
  by code_simp

lemma duplicate_index_search:
  "fst (searchAutoGenDocs duplicate_index_site ''agent'' 5 ''stable'') =
     Inr [\<lparr>title = ''Agent'', url = ''https://microsoft.github.io/autogen/stable/agent.html'',
            snippet = ''Documentation'', type = ''Documentation''\<rparr>,
          \<lparr>title = ''Agent again'',
            url = ''https://microsoft.github.io/autogen/stable/agent.html'',
            snippet = ''Documentation'', type = ''Documentation''\<rparr>]"
  by code_simp

lemma repeated_url_crawl:
  "crawl_results repeated_url_site ''agent'' 5 ''stable'' =
     [\<lparr>title = ''Agent basics'',
        url = ''https://microsoft.github.io/autogen/stable/user-guide/index.html'',
        snippet = ''User Guide: Agent basics'', type = ''User Guide''\<rparr>,
      \<lparr>title = ''Overview'',
        url = ''https://microsoft.github.io/autogen/stable/user-guide/index.html'',
        snippet = ''An agent acts on behalf of a user and calls tools to do so.'',
        type = ''User Guide''\<rparr>]"
  by code_simp

text \<open>
  Claim C2, as stated, fails: the results of the search index and of the search page are
  returned as they are. Two links of the search page with the same target, or two
  documents of the index with the same name, give two entries with the same URL.
\<close>

theorem unique_urls_counterexample:
  "fst (searchAutoGenDocs duplicate_links_site ''agent'' 5 ''stable'') =
     Inr [\<lparr>title = ''Agent'', url = ''https://microsoft.github.io/autogen/stable/agent.html'',
            snippet = ''AutoGen documentation'', type = []\<rparr>,
          \<lparr>title = ''More on agents'',
            url = ''https://microsoft.github.io/autogen/stable/agent.html'',
            snippet = ''AutoGen documentation'', type = []\<rparr>]
   \<and> fst (searchAutoGenDocs duplicate_index_site ''agent'' 5 ''stable'') =
     Inr [\<lparr>title = ''Agent'', url = ''https://microsoft.github.io/autogen/stable/agent.html'',
            snippet = ''Documentation'', type = ''Documentation''\<rparr>,
          \<lparr>title = ''Agent again'',
            url = ''https://microsoft.github.io/autogen/stable/agent.html'',
            snippet = ''Documentation'', type = ''Documentation''\<rparr>]
   \<and> \<not> distinct [''https://microsoft.github.io/autogen/stable/agent.html'',
                   ''https://microsoft.github.io/autogen/stable/agent.html'']"
  using duplicate_links_search duplicate_index_search by simp

text \<open>
  Claim C2, amended. The list that the fallback crawler returns holds no two entries with
  the same URL: it is the list of the collected entries with every entry dropped whose URL
  an earlier entry has (the first occurrence wins and the order is kept), cut to the limit.
  The results of the other two strategies are not deduplicated.
\<close>

theorem crawler_urls_unique:
  "\<exists>rs. fst (fallbackSearch env query limit version) = Inr rs
        \<and> rs = slice0 (first_by_url [] (crawl_results env query limit version)) limit
        \<and> distinct (map url rs)"
proof -
  have "distinct (map url (first_by_url [] (crawl_results env query limit version)))"
    using first_by_url_distinct[of "[]" "crawl_results env query limit version"] by simp
  then have "distinct (map url (slice0 (first_by_url [] (crawl_results env query limit version)) limit))"
    by (rule slice0_distinct)
  then show ?thesis
    by (simp add: fallbackSearch_fst uniqueResults_first)
qed

theorem crawler_urls_unique_witness:
  "fst (fallbackSearch repeated_url_site ''agent'' 5 ''stable'') =
     Inr [\<lparr>title = ''Agent basics'',
            url = ''https://microsoft.github.io/autogen/stable/user-guide/index.html'',
            snippet = ''User Guide: Agent basics'', type = ''User Guide''\<rparr>]"
proof -
  have "slice0 (first_by_url [] (crawl_results repeated_url_site ''agent'' 5 ''stable'')) 5 =
     [\<lparr>title = ''Agent basics'',
        url = ''https://microsoft.github.io/autogen/stable/user-guide/index.html'',
        snippet = ''User Guide: Agent basics'', type = ''User Guide''\<rparr>]"
    unfolding repeated_url_crawl by (simp add: slice0_def to_integer_def)
  with crawler_urls_unique[of repeated_url_site "''agent''" 5 "''stable''"]
  show ?thesis by simp
qed

section \<open>The search of the index\<close>

lemma candidates_Nil: "candidates qt b [] = []"
  by (simp add: candidates_def)

lemma candidates_Cons:
  "candidates qt b ((t, d) # docs) =
     (if doc_score qt (toLowerCase t) (toLowerCase d) > 0
      then \<lparr>title = t, url = b @ ''/'' @ d @ ''.html'', snippet = doc_type d, type = doc_type d\<rparr>
             # candidates qt b docs
      else candidates qt b docs)"
  by (simp add: candidates_def index_entry_def)

lemma candidates_append:
  "candidates qt b (xs @ ys) = candidates qt b xs @ candidates qt b ys"
  by (simp add: candidates_def)

lemma string_docs_append:
  "length pt = length pd \<Longrightarrow>
   string_docs (map JStr pt @ ts) (map JStr pd @ ds) = zip pt pd @ string_docs ts ds"
proof (induction pt arbitrary: pd)
  case Nil
  then show ?case by simp
next
  case (Cons t pt)
  then obtain d pd' where pd: "pd = d # pd'" and len: "length pt = length pd'"
    by (cases pd) auto
  show ?case using Cons.IH[OF len] by (simp add: pd)
qed

lemma string_docs_strings:
  "length ts = length ds \<Longrightarrow> string_docs (map JStr ts) (map JStr ds) = zip ts ds"
  using string_docs_append[of ts ds "[]" "[]"] by simp

lemma all_strings_strings:
  "length ts = length ds \<Longrightarrow> all_strings (map JStr ts) (map JStr ds)"
proof (induction ts arbitrary: ds)
  case Nil
  then show ?case by simp
next
  case (Cons t ts)
  then obtain d ds' where ds: "ds = d # ds'" and len: "length ts = length ds'"
    by (cases ds) auto
  show ?case using Cons.IH[OF len] by (simp add: ds)
qed

lemma index_loop_full:
  "\<not> of_nat (length rs) < limit \<Longrightarrow> index_loop qt b limit ts ds rs = (rs, None)"
  by (cases ts) simp_all

text \<open>
  The loop over the index, in closed form: it collects the candidates of the readable
  documents until \<open>limit\<close> results are held, and raises when it reaches a position that
  is not readable with fewer results than that.
\<close>

lemma index_loop_eq:
  "index_loop qt b limit ts ds rs =
     (if all_strings ts ds
         \<or> limit \<le> of_nat (length rs + length (candidates qt b (string_docs ts ds)))
      then (rs @ take (nat \<lceil>limit\<rceil> - length rs) (candidates qt b (string_docs ts ds)), None)
      else (rs @ candidates qt b (string_docs ts ds), Some TypeError))"
proof (induction ts arbitrary: ds rs)
  case Nil
  show ?case by (simp add: candidates_Nil)
next
  case (Cons t ts)
  show ?case
  proof (cases "of_nat (length rs) < limit")
    case False
    then have le: "limit \<le> of_nat (length rs)" by simp
    have "(of_nat (length rs) :: rat)
            \<le> of_nat (length rs + length (candidates qt b (string_docs (t # ts) ds)))"
      by simp
    with le have c: "limit \<le> of_nat (length rs + length (candidates qt b (string_docs (t # ts) ds)))"
      by (rule order_trans)
    from le have "\<lceil>limit\<rceil> \<le> int (length rs)" by (simp only: limit_le_iff)
    then have z: "nat \<lceil>limit\<rceil> - length rs = 0" by linarith
    show ?thesis
      unfolding index_loop_full[OF False] using c z by simp
  next
    case room: True
    then have "int (length rs) < \<lceil>limit\<rceil>" by (simp only: less_limit_iff)
    then have suc: "nat \<lceil>limit\<rceil> - length rs = Suc (nat \<lceil>limit\<rceil> - (length rs + 1))"
      by linarith
    show ?thesis
    proof (cases t)
      case JNonStr
      with room show ?thesis by (simp add: candidates_Nil)
    next
      case (JStr title_i)
      note t = this
      show ?thesis
      proof (cases "js_head ds")
        case JNonStr
        with room t show ?thesis by (simp add: candidates_Nil)
      next
        case (JStr docname)
        note d = this
        show ?thesis
        proof (cases "doc_score qt (toLowerCase title_i) (toLowerCase docname) > 0")
          case False
          with room t d show ?thesis
            using Cons.IH[of "tl ds" rs] by (simp add: candidates_Cons)
        next
          case True
          let ?e = "\<lparr>title = title_i, url = b @ ''/'' @ docname @ ''.html'',
                     snippet = doc_type docname, type = doc_type docname\<rparr>"
          from True room t d show ?thesis
            using Cons.IH[of "tl ds" "rs @ [?e]"] suc
            by (simp add: candidates_Cons algebra_simps)
        qed
      qed
    qed
  qed
qed

lemma slice0_all: "of_nat (length xs) \<le> n \<Longrightarrow> slice0 xs n = xs"
proof -
  assume le: "of_nat (length xs) \<le> n"
  have "(0::rat) \<le> of_nat (length xs)" by simp
  from this le have n: "0 \<le> n" by (rule order_trans)
  from le have "(of_int (int (length xs)) :: rat) \<le> n" by simp
  then have "int (length xs) \<le> \<lfloor>n\<rfloor>" by (simp only: le_floor_iff)
  then have "length xs \<le> nat \<lfloor>n\<rfloor>" by linarith
  then show ?thesis by (simp add: slice0_def Let_def to_integer_nonneg[OF n])
qed


lemma sort_results_length: "length (sort_results qt rs) = length rs"
  by (simp add: sort_results_def)



lemma performIndexSearch_eq:
  assumes ts: "titles sd = Some ts" and ds: "docnames sd = Some ds"
  shows "performIndexSearch sd q b limit =
           (if all_strings ts ds
               \<or> limit \<le> of_nat (length (candidates (query_terms q) b (string_docs ts ds)))
            then slice0 (sort_results (query_terms q)
                           (take (nat \<lceil>limit\<rceil>)
                              (candidates (query_terms q) b (string_docs ts ds)))) limit
            else candidates (query_terms q) b (string_docs ts ds))"
proof (cases "all_strings ts ds
               \<or> limit \<le> of_nat (length (candidates (query_terms q) b (string_docs ts ds)))")
  case True
  then show ?thesis
    using ts ds index_loop_eq[of "query_terms q" b limit ts ds "[]"]
    by (simp add: performIndexSearch_def Let_def)
next
  case False
  then have "of_nat (length (candidates (query_terms q) b (string_docs ts ds))) \<le> limit"
    by simp
  then have "slice0 (candidates (query_terms q) b (string_docs ts ds)) limit
               = candidates (query_terms q) b (string_docs ts ds)"
    by (rule slice0_all)
  with False show ?thesis
    using ts ds index_loop_eq[of "query_terms q" b limit ts ds "[]"]
    by (simp add: performIndexSearch_def Let_def)
qed

lemma agent_terms: "query_terms ''agent'' = [''agent'']"
  by code_simp

lemma agent_doc_score:
  "doc_score [''agent''] (toLowerCase ''Agent Introduction'') (toLowerCase ''python/agent-intro'') > 0"
  by code_simp

lemma agent_doc_type: "doc_type ''python/agent-intro'' = ''API Reference''"
  by code_simp

lemma crowded_search:
  "fst (searchAutoGenDocs crowded_site ''agent'' 5 ''stable'') =
     Inr [\<lparr>title = ''Agent one'', url = ''https://microsoft.github.io/autogen/stable/a1.html'',
            snippet = ''Documentation'', type = ''Documentation''\<rparr>,
          \<lparr>title = ''Agent two'', url = ''https://microsoft.github.io/autogen/stable/a2.html'',
            snippet = ''Documentation'', type = ''Documentation''\<rparr>,
          \<lparr>title = ''Agent three'', url = ''https://microsoft.github.io/autogen/stable/a3.html'',
            snippet = ''Documentation'', type = ''Documentation''\<rparr>,
          \<lparr>title = ''Agent four'', url = ''https://microsoft.github.io/autogen/stable/a4.html'',
            snippet = ''Documentation'', type = ''Documentation''\<rparr>,
          \<lparr>title = ''Agent five'', url = ''https://microsoft.github.io/autogen/stable/a5.html'',
            snippet = ''Documentation'', type = ''Documentation''\<rparr>]"
  by code_simp

lemma crowded_site_index:
  "fetch crowded_site (searchIndexUrl (getVersionUrl ''stable''))
     = Inr \<lparr>ok = True, body = Some ''Search.setIndex(J)''\<rparr>"
  "match_setIndex crowded_site ''Search.setIndex(J)'' = Some ''J''"
  "JSON_parse crowded_site ''J'' = Some crowded_index"
  "titles crowded_index = Some [JStr ''Agent one'', JStr ''Agent two'', JStr ''Agent three'',
                      JStr ''Agent four'', JStr ''Agent five'', JStr ''Agent Introduction'']"
  "docnames crowded_index = Some [JStr ''a1'', JStr ''a2'', JStr ''a3'', JStr ''a4'', JStr ''a5'',
                        JStr ''python/agent-intro'']"
  by (simp_all add: crowded_site_def crowded_index_def searchIndexUrl_def getVersionUrl_def
                    AUTOGEN_BASE_URL_def)

lemma guide_agent_search:
  "fst (searchAutoGenDocs guide_agent_site ''agent'' 5 ''stable'') =
     Inr [\<lparr>title = ''Agent tools'', url = ''https://microsoft.github.io/autogen/stable/tools.html'',
            snippet = ''Documentation'', type = ''Documentation''\<rparr>,
          \<lparr>title = ''Agent Introduction'',
            url = ''https://microsoft.github.io/autogen/stable/python/agent-intro.html'',
            snippet = ''API Reference'', type = ''API Reference''\<rparr>]"
  by code_simp

lemma guide_agent_few:
  "length (candidates (query_terms ''agent'') (getVersionUrl ''stable'')
             (zip [''Getting started'', ''Agent tools''] [''intro'', ''tools''])) = 1"
  by code_simp

text \<open>
  Claim C7, as stated, fails: the index that holds the document titled
  \<open>Agent Introduction\<close> at \<open>python/agent-intro\<close> may hold five other documents that
  match the query before it. The loop over the index stops at five results, so the search
  answers from the index, with the five earlier documents, and the entry of
  \<open>Agent Introduction\<close> is not in the returned list.
\<close>

theorem agent_introduction_missing_counterexample:
  "fetch crowded_site (searchIndexUrl (getVersionUrl ''stable''))
     = Inr \<lparr>ok = True, body = Some ''Search.setIndex(J)''\<rparr>
   \<and> match_setIndex crowded_site ''Search.setIndex(J)'' = Some ''J''
   \<and> JSON_parse crowded_site ''J'' = Some crowded_index
   \<and> titles crowded_index = Some [JStr ''Agent one'', JStr ''Agent two'', JStr ''Agent three'',
                      JStr ''Agent four'', JStr ''Agent five'', JStr ''Agent Introduction'']
   \<and> docnames crowded_index = Some [JStr ''a1'', JStr ''a2'', JStr ''a3'', JStr ''a4'', JStr ''a5'',
                        JStr ''python/agent-intro'']
   \<and> fst (searchAutoGenDocs crowded_site ''agent'' 5 ''stable'') =
     Inr [\<lparr>title = ''Agent one'', url = ''https://microsoft.github.io/autogen/stable/a1.html'',
            snippet = ''Documentation'', type = ''Documentation''\<rparr>,
          \<lparr>title = ''Agent two'', url = ''https://microsoft.github.io/autogen/stable/a2.html'',
            snippet = ''Documentation'', type = ''Documentation''\<rparr>,
          \<lparr>title = ''Agent three'', url = ''https://microsoft.github.io/autogen/stable/a3.html'',
            snippet = ''Documentation'', type = ''Documentation''\<rparr>,
          \<lparr>title = ''Agent four'', url = ''https://microsoft.github.io/autogen/stable/a4.html'',
            snippet = ''Documentation'', type = ''Documentation''\<rparr>,
          \<lparr>title = ''Agent five'', url = ''https://microsoft.github.io/autogen/stable/a5.html'',
            snippet = ''Documentation'', type = ''Documentation''\<rparr>]
   \<and> \<lparr>title = ''Agent Introduction'',
        url = ''https://microsoft.github.io/autogen/stable/python/agent-intro.html'',
        snippet = ''API Reference'', type = ''API Reference''\<rparr>
      \<notin> set [\<lparr>title = ''Agent one'', url = ''https://microsoft.github.io/autogen/stable/a1.html'',
            snippet = ''Documentation'', type = ''Documentation''\<rparr>,
          \<lparr>title = ''Agent two'', url = ''https://microsoft.github.io/autogen/stable/a2.html'',
            snippet = ''Documentation'', type = ''Documentation''\<rparr>,
          \<lparr>title = ''Agent three'', url = ''https://microsoft.github.io/autogen/stable/a3.html'',
            snippet = ''Documentation'', type = ''Documentation''\<rparr>,
          \<lparr>title = ''Agent four'', url = ''https://microsoft.github.io/autogen/stable/a4.html'',
            snippet = ''Documentation'', type = ''Documentation''\<rparr>,
          \<lparr>title = ''Agent five'', url = ''https://microsoft.github.io/autogen/stable/a5.html'',
            snippet = ''Documentation'', type = ''Documentation''\<rparr>]"
  by (simp add: crowded_search crowded_site_index)

text \<open>
  Claim C7, amended. The query \<open>agent\<close> with limit 5 and version \<open>stable\<close>: when the
  request for the search index is answered ok, its text matches and parses to an index that
  holds the document titled \<open>Agent Introduction\<close> at \<open>python/agent-intro\<close>, every
  title and document name before that document is a string, and fewer than five documents
  before it match the query, the search returns a list with the entry of that title, with
  the URL \<open>/python/agent-intro.html\<close> under the base URL of the version and with the type
  \<open>API Reference\<close>.
\<close>

theorem agent_introduction_found:
  assumes fetched: "fetch env (searchIndexUrl (getVersionUrl ''stable''))
                      = Inr \<lparr>ok = True, body = Some content\<rparr>"
      and matched: "match_setIndex env content = Some m"
      and parsed: "JSON_parse env m = Some searchData"
      and ts: "titles searchData = Some (map JStr pt @ JStr ''Agent Introduction'' # more_titles)"
      and ds: "docnames searchData = Some (map JStr pd @ JStr ''python/agent-intro'' # more_docnames)"
      and len: "length pt = length pd"
      and few: "length (candidates (query_terms ''agent'') (getVersionUrl ''stable'') (zip pt pd)) < 5"
  shows "\<exists>rs. fst (searchAutoGenDocs env ''agent'' 5 ''stable'') = Inr rs
           \<and> \<lparr>title = ''Agent Introduction'',
               url = getVersionUrl ''stable'' @ ''/python/agent-intro.html'',
               snippet = ''API Reference'', type = ''API Reference''\<rparr> \<in> set rs"
proof -
  let ?b = "getVersionUrl ''stable''"
  let ?qt = "[''agent'']"
  let ?e = "\<lparr>title = ''Agent Introduction'', url = ?b @ ''/python/agent-intro.html'',
             snippet = ''API Reference'', type = ''API Reference''\<rparr>"
  let ?cs = "candidates ?qt ?b (zip pt pd)"
  let ?ts = "map JStr pt @ JStr ''Agent Introduction'' # more_titles"
  let ?ds = "map JStr pd @ JStr ''python/agent-intro'' # more_docnames"
  let ?rest = "candidates ?qt ?b (string_docs more_titles more_docnames)"
  let ?cands = "candidates ?qt ?b (string_docs ?ts ?ds)"
  from few have few': "length ?cs < 5" by (simp add: agent_terms)
  have "string_docs ?ts ?ds
          = zip pt pd @ (''Agent Introduction'', ''python/agent-intro'')
              # string_docs more_titles more_docnames"
    using string_docs_append[OF len, of "JStr ''Agent Introduction'' # more_titles"
                                        "JStr ''python/agent-intro'' # more_docnames"]
    by simp
  then have cands: "?cands = ?cs @ ?e # ?rest"
    using agent_doc_score by (simp add: candidates_append candidates_Cons agent_doc_type)
  have in_cands: "?e \<in> set ?cands" by (simp add: cands)
  have "take 5 ?cands = ?cs @ take (5 - length ?cs) (?e # ?rest)"
    using few' by (simp add: cands)
  also have "\<dots> = ?cs @ ?e # take (5 - length ?cs - 1) ?rest"
    using few' by (cases "5 - length ?cs") simp_all
  finally have in_take: "?e \<in> set (take 5 ?cands)" by simp
  have "of_nat (length (sort_results ?qt (take 5 ?cands))) \<le> (5::rat)"
  proof -
    have "length (sort_results ?qt (take 5 ?cands)) \<le> 5"
      by (simp add: sort_results_length)
    then have "(of_nat (length (sort_results ?qt (take 5 ?cands))) :: rat) \<le> of_nat 5"
      by (simp only: of_nat_le_iff)
    then show ?thesis by simp
  qed
  then have cut: "slice0 (sort_results ?qt (take 5 ?cands)) 5 = sort_results ?qt (take 5 ?cands)"
    by (rule slice0_all)
  have found: "?e \<in> set (performIndexSearch searchData ''agent'' ?b 5)"
    using performIndexSearch_eq[OF ts ds, of "''agent''" ?b 5] in_cands in_take cut
    by (simp add: agent_terms sort_results_set split: if_splits)
  then have "length (performIndexSearch searchData ''agent'' ?b 5) > 0" by auto
  then have "index_strategy env \<lparr>ok = True, body = Some content\<rparr> ''agent'' ?b 5
               = Inr (Some (performIndexSearch searchData ''agent'' ?b 5))"
    using matched parsed by (simp add: index_strategy_def)
  with fetched have "searchAutoGenDocs env ''agent'' 5 ''stable''
      = (Inr (performIndexSearch searchData ''agent'' ?b 5), [searchIndexUrl ?b])"
    by (rule search_index_found)
  with found show ?thesis by simp
qed

theorem agent_introduction_found_witness:
  "length (candidates (query_terms ''agent'') (getVersionUrl ''stable'')
             (zip [''Getting started'', ''Agent tools''] [''intro'', ''tools''])) = 1
   \<and> \<lparr>title = ''Agent Introduction'',
        url = ''https://microsoft.github.io/autogen/stable/python/agent-intro.html'',
        snippet = ''API Reference'', type = ''API Reference''\<rparr>
      \<in> set [\<lparr>title = ''Agent tools'', url = ''https://microsoft.github.io/autogen/stable/tools.html'',
               snippet = ''Documentation'', type = ''Documentation''\<rparr>,
             \<lparr>title = ''Agent Introduction'',
               url = ''https://microsoft.github.io/autogen/stable/python/agent-intro.html'',
               snippet = ''API Reference'', type = ''API Reference''\<rparr>]"
proof -
  have f: "fetch guide_agent_site (searchIndexUrl (getVersionUrl ''stable''))
             = Inr \<lparr>ok = True, body = Some ''Search.setIndex(J)''\<rparr>"
    by (simp add: guide_agent_site_def searchIndexUrl_def getVersionUrl_def AUTOGEN_BASE_URL_def)
  have m: "match_setIndex guide_agent_site ''Search.setIndex(J)'' = Some ''J''"
    by (simp add: guide_agent_site_def)
  have p: "JSON_parse guide_agent_site ''J'' = Some guide_agent_index"
    by (simp add: guide_agent_site_def)
  have t: "titles guide_agent_index
             = Some (map JStr [''Getting started'', ''Agent tools'']
                       @ JStr ''Agent Introduction'' # [])"
    by (simp add: guide_agent_index_def)
  have d: "docnames guide_agent_index
             = Some (map JStr [''intro'', ''tools''] @ JStr ''python/agent-intro'' # [])"
    by (simp add: guide_agent_index_def)
  have l: "length [''Getting started'', ''Agent tools''] = length [''intro'', ''tools'']"
    by simp
  have few: "length (candidates (query_terms ''agent'') (getVersionUrl ''stable'')
                       (zip [''Getting started'', ''Agent tools''] [''intro'', ''tools''])) < 5"
    by (simp only: guide_agent_few)
  from agent_introduction_found[OF f m p t d l few] guide_agent_few
  show ?thesis by (simp add: guide_agent_search getVersionUrl_def AUTOGEN_BASE_URL_def)
qed










section \<open>The order of the strategies\<close>

lemma index_rejected_search:
  "searchAutoGenDocs index_rejected_site ''agent'' 5 ''stable'' =
     (Inr [],
      [''https://microsoft.github.io/autogen/stable/searchindex.js'',
       ''https://microsoft.github.io/autogen/stable/user-guide/index.html'',
       ''https://microsoft.github.io/autogen/stable/user-guide/core-user-guide/index.html'',
       ''https://microsoft.github.io/autogen/stable/user-guide/agentchat-user-guide/index.html'',
       ''https://microsoft.github.io/autogen/stable/reference/index.html'',
       ''https://microsoft.github.io/autogen/stable/reference/agentchat/index.html'',
       ''https://microsoft.github.io/autogen/stable/reference/autogen_core/index.html'',
       ''https://microsoft.github.io/autogen/stable/tutorials/index.html''])"
  by code_simp

lemma agent_urls:
  "searchIndexUrl (getVersionUrl ''stable'') = ''https://microsoft.github.io/autogen/stable/searchindex.js''"
  "searchUrl (getVersionUrl ''stable'') ''agent'' = ''https://microsoft.github.io/autogen/stable/search.html?q=agent''"
  by code_simp+

lemma unreachable_search:
  "searchAutoGenDocs unreachable_site ''agent'' 5 ''stable'' =
     (Inr [],
      [''https://microsoft.github.io/autogen/stable/searchindex.js'',
       ''https://microsoft.github.io/autogen/stable/search.html?q=agent'',
       ''https://microsoft.github.io/autogen/stable/user-guide/index.html'',
       ''https://microsoft.github.io/autogen/stable/user-guide/core-user-guide/index.html'',
       ''https://microsoft.github.io/autogen/stable/user-guide/agentchat-user-guide/index.html'',
       ''https://microsoft.github.io/autogen/stable/reference/index.html'',
       ''https://microsoft.github.io/autogen/stable/reference/agentchat/index.html'',
       ''https://microsoft.github.io/autogen/stable/reference/autogen_core/index.html'',
       ''https://microsoft.github.io/autogen/stable/tutorials/index.html''])"
  by code_simp

lemma agent_index_strategy:
  "index_strategy agent_site \<lparr>ok = True, body = Some ''Search.setIndex(J)''\<rparr> ''agent''
     (getVersionUrl ''stable'') 5 =
   Inr (Some [\<lparr>title = ''Agent Introduction'',
            url = ''https://microsoft.github.io/autogen/stable/python/agent-intro.html'',
            snippet = ''API Reference'', type = ''API Reference''\<rparr>])"
  by code_simp

lemma agent_encoded: "encode_latin1 ''agent'' = ''agent''"
  by code_simp

lemma half_page_strategy:
  "search_page_strategy foreign_links_site \<lparr>ok = True, body = Some ''S''\<rparr>
     (getVersionUrl ''stable'') (1 / 2) = Inr (Some [])"
  by code_simp

lemma search_page_strategy_iff:
  "search_page_strategy env resp2 b limit = Inr (Some rs) \<longleftrightarrow>
     ok resp2
     \<and> (\<exists>html. body resp2 = Some html
           \<and> search_links_scan b limit (search_section_links env html) [] \<noteq> []
           \<and> rs = slice0 (search_links_scan b limit (search_section_links env html) []) limit)"
  by (auto simp: search_page_strategy_def Let_def split: option.splits)

lemma slice0_below_one: "0 < limit \<Longrightarrow> limit < 1 \<Longrightarrow> slice0 xs limit = []"
proof -
  assume "0 < limit" "limit < 1"
  then have "\<lfloor>limit\<rfloor> = 0" by (simp add: floor_eq_iff)
  with \<open>0 < limit\<close> show ?thesis by (simp add: slice0_def Let_def to_integer_def)
qed

text \<open>
  Claim C4, as stated, fails: when the request for the search index is rejected, the
  exception leaves the outer \<open>try\<close> block and its \<open>catch\<close> runs the crawler at once.
  The first strategy has produced no candidate, yet the search page is never requested.
\<close>

theorem search_page_skipped_counterexample:
  "fetch index_rejected_site (searchIndexUrl (getVersionUrl ''stable'')) = Inl FetchError
   \<and> searchAutoGenDocs index_rejected_site ''agent'' 5 ''stable'' =
     (Inr [],
      [''https://microsoft.github.io/autogen/stable/searchindex.js'',
       ''https://microsoft.github.io/autogen/stable/user-guide/index.html'',
       ''https://microsoft.github.io/autogen/stable/user-guide/core-user-guide/index.html'',
       ''https://microsoft.github.io/autogen/stable/user-guide/agentchat-user-guide/index.html'',
       ''https://microsoft.github.io/autogen/stable/reference/index.html'',
       ''https://microsoft.github.io/autogen/stable/reference/agentchat/index.html'',
       ''https://microsoft.github.io/autogen/stable/reference/autogen_core/index.html'',
       ''https://microsoft.github.io/autogen/stable/tutorials/index.html''])
   \<and> searchUrl (getVersionUrl ''stable'') ''agent''
       \<notin> set (snd (searchAutoGenDocs index_rejected_site ''agent'' 5 ''stable''))"
  by (simp add: index_rejected_search agent_urls) (simp add: index_rejected_site_def)

text \<open>
  Claim C4, amended. When the request for the index is answered and the first strategy
  returns results, the search returns them and requests nothing else. When it is answered
  and the first strategy yields nothing (status not ok, no match, JSON that does not
  parse, no candidate left after the cut to the limit), the query is encoded for the URL of
  the search page. When the encoding succeeds, the search page is requested next; when its
  response is ok and the scan of its links collects at least one result, the collected
  results cut by \<open>slice(0, limit)\<close> are returned, the empty list for a limit between 0
  and 1, and no page is crawled; otherwise the crawler runs and its outcome is returned.
  When the encoding raises a URIError (a query with a lone surrogate), when the request for
  the index is rejected, or when the body of its response cannot be read, the crawler runs
  directly, without a request for the search page.
\<close>

theorem strategy_order:
  fixes env query limit version enc
  defines "b \<equiv> getVersionUrl version"
  defines "iu \<equiv> searchIndexUrl (getVersionUrl version)"
  defines "su \<equiv> searchUrl (getVersionUrl version) enc"
  defines "crawl \<equiv> fallbackSearch env query limit version"
  shows
    "(\<forall>resp rs. fetch env iu = Inr resp \<longrightarrow> index_strategy env resp query b limit = Inr (Some rs)
        \<longrightarrow> searchAutoGenDocs env query limit version = (Inr rs, [iu]))
   \<and> (\<forall>resp. index_strategy env resp query b limit = Inr None \<longleftrightarrow>
          \<not> ok resp
          \<or> (\<exists>c. body resp = Some c
                \<and> (match_setIndex env c = None
                    \<or> (\<exists>m. match_setIndex env c = Some m
                          \<and> (JSON_parse env m = None
                              \<or> (\<exists>sd. JSON_parse env m = Some sd
                                    \<and> performIndexSearch sd query b limit = []))))))
   \<and> (\<forall>resp. fetch env iu = Inr resp \<longrightarrow> index_strategy env resp query b limit = Inr None
        \<longrightarrow> encodeURIComponent env query = Some enc
        \<longrightarrow> take 2 (snd (searchAutoGenDocs env query limit version)) = [iu, su])
   \<and> (\<forall>resp resp2 rs. fetch env iu = Inr resp \<longrightarrow> index_strategy env resp query b limit = Inr None
        \<longrightarrow> encodeURIComponent env query = Some enc
        \<longrightarrow> fetch env su = Inr resp2 \<longrightarrow> search_page_strategy env resp2 b limit = Inr (Some rs)
        \<longrightarrow> searchAutoGenDocs env query limit version = (Inr rs, [iu, su]))
   \<and> (\<forall>resp2 rs. search_page_strategy env resp2 b limit = Inr (Some rs) \<longleftrightarrow>
          ok resp2
          \<and> (\<exists>html. body resp2 = Some html
                \<and> search_links_scan b limit (search_section_links env html) [] \<noteq> []
                \<and> rs = slice0 (search_links_scan b limit (search_section_links env html) [])
                              limit))
   \<and> (\<forall>resp2 rs. 0 < limit \<longrightarrow> limit < 1
        \<longrightarrow> search_page_strategy env resp2 b limit = Inr (Some rs) \<longrightarrow> rs = [])
   \<and> (\<forall>resp. fetch env iu = Inr resp \<longrightarrow> index_strategy env resp query b limit = Inr None
        \<longrightarrow> encodeURIComponent env query = Some enc
        \<longrightarrow> (\<forall>resp2 rs. fetch env su = Inr resp2
               \<longrightarrow> search_page_strategy env resp2 b limit \<noteq> Inr (Some rs))
        \<longrightarrow> searchAutoGenDocs env query limit version = (fst crawl, iu # su # snd crawl))
   \<and> (\<forall>resp. fetch env iu = Inr resp \<longrightarrow> index_strategy env resp query b limit = Inr None
        \<longrightarrow> encodeURIComponent env query = None
        \<longrightarrow> searchAutoGenDocs env query limit version = (fst crawl, iu # snd crawl))
   \<and> ((\<forall>resp. fetch env iu = Inr resp \<longrightarrow> (\<exists>e. index_strategy env resp query b limit = Inl e))
        \<longrightarrow> searchAutoGenDocs env query limit version = (fst crawl, iu # snd crawl))"
proof -
  have c1: "searchAutoGenDocs env query limit version = (Inr rs, [iu])"
    if "fetch env iu = Inr resp" "index_strategy env resp query b limit = Inr (Some rs)"
    for resp rs
    using that unfolding b_def iu_def by (rule search_index_found)
  have c1': "index_strategy env resp query b limit = Inr None \<longleftrightarrow>
          \<not> ok resp
          \<or> (\<exists>c. body resp = Some c
                \<and> (match_setIndex env c = None
                    \<or> (\<exists>m. match_setIndex env c = Some m
                          \<and> (JSON_parse env m = None
                              \<or> (\<exists>sd. JSON_parse env m = Some sd
                                    \<and> performIndexSearch sd query b limit = [])))))"
    for resp
    by (rule index_strategy_None_iff)
  have c2: "take 2 (snd (searchAutoGenDocs env query limit version)) = [iu, su]"
    if f: "fetch env iu = Inr resp" and n: "index_strategy env resp query b limit = Inr None"
       and e: "encodeURIComponent env query = Some enc"
    for resp
  proof (cases rule: searchAutoGenDocs_cases[of env query limit version])
    case crawl_first
    with f n e show ?thesis by (auto simp: b_def iu_def)
  next
    case (index resp' rs)
    with f n show ?thesis by (simp add: b_def iu_def)
  next
    case (page resp' enc' resp2 rs)
    with e show ?thesis by (simp add: iu_def su_def)
  next
    case (crawl_last resp' enc')
    with e show ?thesis by (simp add: iu_def su_def)
  qed
  have c3: "searchAutoGenDocs env query limit version = (Inr rs, [iu, su])"
    if "fetch env iu = Inr resp" "index_strategy env resp query b limit = Inr None"
       "encodeURIComponent env query = Some enc"
       "fetch env su = Inr resp2" "search_page_strategy env resp2 b limit = Inr (Some rs)"
    for resp resp2 rs
    using that unfolding b_def iu_def su_def by (rule search_page_found)
  have c4: "search_page_strategy env resp2 b limit = Inr (Some rs) \<longleftrightarrow>
          ok resp2
          \<and> (\<exists>html. body resp2 = Some html
                \<and> search_links_scan b limit (search_section_links env html) [] \<noteq> []
                \<and> rs = slice0 (search_links_scan b limit (search_section_links env html) [])
                              limit)"
    for resp2 rs
    by (rule search_page_strategy_iff)
  have c5: "rs = []"
    if "0 < limit" "limit < 1" "search_page_strategy env resp2 b limit = Inr (Some rs)"
    for resp2 rs
    using search_page_strategy_Some[OF that(3)] slice0_below_one[OF that(1) that(2)] by auto
  have c6: "searchAutoGenDocs env query limit version = (fst crawl, iu # su # snd crawl)"
    if f: "fetch env iu = Inr resp" and n: "index_strategy env resp query b limit = Inr None"
       and e: "encodeURIComponent env query = Some enc"
       and none: "\<forall>resp2 rs. fetch env su = Inr resp2
                  \<longrightarrow> search_page_strategy env resp2 b limit \<noteq> Inr (Some rs)"
    for resp
  proof (cases rule: searchAutoGenDocs_cases[of env query limit version])
    case crawl_first
    with f n e show ?thesis by (auto simp: b_def iu_def)
  next
    case (index resp' rs)
    with f n show ?thesis by (simp add: b_def iu_def)
  next
    case (page resp' enc' resp2 rs)
    with none e show ?thesis by (simp add: b_def su_def)
  next
    case (crawl_last resp' enc')
    with e show ?thesis by (simp add: iu_def su_def crawl_def)
  qed
  have c7: "searchAutoGenDocs env query limit version = (fst crawl, iu # snd crawl)"
    if "fetch env iu = Inr resp" "index_strategy env resp query b limit = Inr None"
       "encodeURIComponent env query = None"
    for resp
    using that unfolding b_def iu_def crawl_def by (rule search_uri_error)
  have c8: "searchAutoGenDocs env query limit version = (fst crawl, iu # snd crawl)"
    if raised: "\<forall>resp. fetch env iu = Inr resp
                  \<longrightarrow> (\<exists>e. index_strategy env resp query b limit = Inl e)"
  proof (cases rule: searchAutoGenDocs_cases[of env query limit version])
    case crawl_first
    then show ?thesis by (simp add: iu_def crawl_def)
  next
    case (index resp' rs)
    with raised show ?thesis by (auto simp: b_def iu_def)
  next
    case (page resp' enc' resp2 rs)
    with raised show ?thesis by (auto simp: b_def iu_def)
  next
    case (crawl_last resp' enc')
    with raised show ?thesis by (auto simp: b_def iu_def)
  qed
  show ?thesis
    apply (intro conjI allI impI)
    subgoal by (rule c1)
    subgoal by (rule c1')
    subgoal by (rule c2)
    subgoal by (rule c3)
    subgoal by (rule c4)
    subgoal by (rule c5)
    subgoal by (rule c6)
    subgoal by (rule c7)
    subgoal by (rule c8)
    done
qed

theorem strategy_order_witness:
  "searchAutoGenDocs agent_site ''agent'' 5 ''stable'' =
     (Inr [\<lparr>title = ''Agent Introduction'',
            url = ''https://microsoft.github.io/autogen/stable/python/agent-intro.html'',
            snippet = ''API Reference'', type = ''API Reference''\<rparr>],
      [''https://microsoft.github.io/autogen/stable/searchindex.js''])
   \<and> take 2 (snd (searchAutoGenDocs unreachable_site ''agent'' 5 ''stable'')) =
       [''https://microsoft.github.io/autogen/stable/searchindex.js'',
        ''https://microsoft.github.io/autogen/stable/search.html?q=agent'']
   \<and> searchAutoGenDocs index_rejected_site ''agent'' 5 ''stable'' =
       (fst (fallbackSearch index_rejected_site ''agent'' 5 ''stable''),
        ''https://microsoft.github.io/autogen/stable/searchindex.js''
          # snd (fallbackSearch index_rejected_site ''agent'' 5 ''stable''))
   \<and> searchAutoGenDocs surrogate_site ''agent'' 5 ''stable'' =
       (fst (fallbackSearch surrogate_site ''agent'' 5 ''stable''),
        ''https://microsoft.github.io/autogen/stable/searchindex.js''
          # snd (fallbackSearch surrogate_site ''agent'' 5 ''stable''))
   \<and> searchAutoGenDocs foreign_links_site ''agent'' (1 / 2) ''stable'' =
       (Inr [],
        [''https://microsoft.github.io/autogen/stable/searchindex.js'',
         ''https://microsoft.github.io/autogen/stable/search.html?q=agent''])"
proof -
  have a: "fetch agent_site (searchIndexUrl (getVersionUrl ''stable''))
             = Inr \<lparr>ok = True, body = Some ''Search.setIndex(J)''\<rparr>"
    by (simp add: agent_urls agent_site_def)
  have u: "fetch unreachable_site (searchIndexUrl (getVersionUrl ''stable''))
             = Inr \<lparr>ok = False, body = None\<rparr>"
    by (simp add: unreachable_site_def)
  have ue: "encodeURIComponent unreachable_site ''agent'' = Some ''agent''"
    by (simp add: unreachable_site_def agent_encoded)
  have un: "index_strategy env \<lparr>ok = False, body = None\<rparr> ''agent''
              (getVersionUrl ''stable'') l = Inr None" for env l
    by (simp add: index_strategy_not_ok)
  have r: "fetch index_rejected_site (searchIndexUrl (getVersionUrl ''stable'')) = Inl FetchError"
    by (simp add: agent_urls index_rejected_site_def)
  have s: "fetch surrogate_site (searchIndexUrl (getVersionUrl ''stable''))
             = Inr \<lparr>ok = False, body = None\<rparr>"
    by (simp add: surrogate_site_def)
  have se: "encodeURIComponent surrogate_site ''agent'' = None"
    by (simp add: surrogate_site_def)
  have h: "fetch foreign_links_site (searchIndexUrl (getVersionUrl ''stable''))
             = Inr \<lparr>ok = False, body = None\<rparr>"
    by (simp add: agent_urls foreign_links_site_def)
  have he: "encodeURIComponent foreign_links_site ''agent'' = Some ''agent''"
    by (simp add: foreign_links_site_def agent_encoded)
  have hp: "fetch foreign_links_site (searchUrl (getVersionUrl ''stable'') ''agent'')
             = Inr \<lparr>ok = True, body = Some ''S''\<rparr>"
    by (simp add: agent_urls foreign_links_site_def)
  from strategy_order[of agent_site "''stable''" "''agent''" 5 "''agent''"] a agent_index_strategy
  have 1: "searchAutoGenDocs agent_site ''agent'' 5 ''stable'' =
     (Inr [\<lparr>title = ''Agent Introduction'',
            url = ''https://microsoft.github.io/autogen/stable/python/agent-intro.html'',
            snippet = ''API Reference'', type = ''API Reference''\<rparr>],
      [''https://microsoft.github.io/autogen/stable/searchindex.js''])"
    by (simp add: agent_urls)
  from strategy_order[of unreachable_site "''stable''" "''agent''" 5 "''agent''"] u un ue
  have 2: "take 2 (snd (searchAutoGenDocs unreachable_site ''agent'' 5 ''stable'')) =
       [''https://microsoft.github.io/autogen/stable/searchindex.js'',
        ''https://microsoft.github.io/autogen/stable/search.html?q=agent'']"
    by (simp add: agent_urls)
  from strategy_order[of index_rejected_site "''stable''" "''agent''" 5 "''agent''"] r
  have 3: "searchAutoGenDocs index_rejected_site ''agent'' 5 ''stable'' =
       (fst (fallbackSearch index_rejected_site ''agent'' 5 ''stable''),
        ''https://microsoft.github.io/autogen/stable/searchindex.js''
          # snd (fallbackSearch index_rejected_site ''agent'' 5 ''stable''))"
    by (simp add: agent_urls)
  from strategy_order[of surrogate_site "''stable''" "''agent''" 5 "''agent''"] s un se
  have 4: "searchAutoGenDocs surrogate_site ''agent'' 5 ''stable'' =
       (fst (fallbackSearch surrogate_site ''agent'' 5 ''stable''),
        ''https://microsoft.github.io/autogen/stable/searchindex.js''
          # snd (fallbackSearch surrogate_site ''agent'' 5 ''stable''))"
    by (simp add: agent_urls)
  from strategy_order[of foreign_links_site "''stable''" "''agent''" "1 / 2" "''agent''"]
       h un he hp half_page_strategy
  have 5: "searchAutoGenDocs foreign_links_site ''agent'' (1 / 2) ''stable'' =
       (Inr [],
        [''https://microsoft.github.io/autogen/stable/searchindex.js'',
         ''https://microsoft.github.io/autogen/stable/search.html?q=agent''])"
    by (simp add: agent_urls)
  from 1 2 3 4 5 show ?thesis by simp
qed

section \<open>Duplicates within a page\<close>

lemma twice_heading_scan:
  "scan_page False ''agent'' 5 (getVersionUrl ''stable'') guide_page twice_heading_dom [] =
     [basics_entry, basics_entry]"
  by code_simp

lemma heading_and_link_scan:
  "scan_page False ''agent'' 5 (getVersionUrl ''stable'') guide_page heading_and_link_dom [] =
     [basics_entry]"
  by code_simp

lemma link_alone_scan:
  "scan_page False ''agent'' 5 (getVersionUrl ''stable'') guide_page link_only_dom [] =
     [\<lparr>title = ''Agent guide'',
        url = ''https://microsoft.github.io/autogen/stable/user-guide/index.html'',
        snippet = ''AutoGen documentation'', type = ''User Guide''\<rparr>]"
  by code_simp

lemma overview_block_candidate:
  "str_includes (toLowerCase (trim (text_of overview_block))) ''agent''
   \<and> length (trim (text_of overview_block)) > 50"
  by code_simp

lemma overview_block_fields:
  "(case prev_heading overview_block of
      Some (htext, hid) \<Rightarrow> trim htext
    | None \<Rightarrow> if [] \<noteq> [] then [] else ''AutoGen Documentation'') = ''Overview''"
  "with_fragment (page_url guide_page)
     (case prev_heading overview_block of Some (htext, hid) \<Rightarrow> hid | None \<Rightarrow> None)
     = ''https://microsoft.github.io/autogen/stable/user-guide/index.html''"
  "substring0 (trim (text_of overview_block)) 200
     = ''An agent acts on behalf of a user and calls tools to do so.''"
  "page_type guide_page = ''User Guide''"
  by code_simp+

text \<open>
  Claim C9, as stated, fails for two of the three scans. The heading scan has no check
  for duplicates: two headings with the same text and no \<open>id\<close> give two entries with the
  same URL and the same title. The link scan discards a link when an entry has its URL or
  its title: a link to the page itself is pushed on a page without a matching heading, and
  is discarded after the heading scan has pushed an entry with the URL of the page and
  another title.
\<close>

theorem pair_duplicates_counterexample:
  "scan_page False ''agent'' 5 (getVersionUrl ''stable'') guide_page twice_heading_dom [] =
     [basics_entry, basics_entry]
   \<and> scan_page False ''agent'' 5 (getVersionUrl ''stable'') guide_page link_only_dom [] =
     [\<lparr>title = ''Agent guide'',
        url = ''https://microsoft.github.io/autogen/stable/user-guide/index.html'',
        snippet = ''AutoGen documentation'', type = ''User Guide''\<rparr>]
   \<and> title basics_entry \<noteq> ''Agent guide''
   \<and> scan_page False ''agent'' 5 (getVersionUrl ''stable'') guide_page heading_and_link_dom [] =
     [basics_entry]"
  by (simp add: twice_heading_scan heading_and_link_scan link_alone_scan) (simp add: basics_entry_def)

text \<open>
  Claim C9, amended. While the limit is not reached, each scan of a page treats a
  candidate as follows. The heading scan pushes every heading that contains the query,
  with no check for duplicates. The scan of paragraphs and blocks, and the scan for a
  related term, discard a candidate exactly when the results so far hold an entry with both
  its URL and its title. The link scan discards a candidate exactly when the results so
  far hold an entry with its URL or with its title.
\<close>

theorem duplicate_checks:
  fixes p :: page_ref and e :: element and pageTitle ql tm baseUrl :: string and isMcp :: bool
  defines "block_title \<equiv> (case prev_heading e of
                              Some (htext, hid) \<Rightarrow> trim htext
                            | None \<Rightarrow> if pageTitle \<noteq> [] then pageTitle
                                      else ''AutoGen Documentation'')"
  defines "block_url \<equiv> with_fragment (page_url p)
                          (case prev_heading e of Some (htext, hid) \<Rightarrow> hid | None \<Rightarrow> None)"
  defines "related_title \<equiv>
             (let t = (if tagName e \<in> set [''H1'', ''H2'', ''H3'', ''H4'', ''H5'', ''H6'']
                       then trim (text_of e)
                       else (case prev_heading e of
                               Some (htext, hid) \<Rightarrow> trim htext | None \<Rightarrow> []))
              in if t = [] then page_type p @ '': '' @ tm else t)"
  defines "heading_snippet \<equiv>
             (if substring0 (trim (next_p_div_text e)) 200 \<noteq> []
              then substring0 (trim (next_p_div_text e)) 200
              else page_type p @ '': '' @ trim (text_of e))"
  defines "link_url \<equiv> (case attr_href e of
                          Some href \<Rightarrow> absolute_url
                            (if isMcp then ''https://microsoft.github.io/autogen'' else baseUrl) href
                        | None \<Rightarrow> [])"
  assumes room: "of_nat (length rs) < limit"
  shows
    "(str_includes (toLowerCase (trim (text_of e))) ql \<longrightarrow>
        heading_scan ql limit p (e # es) rs =
          heading_scan ql limit p es
            (rs @ [\<lparr>title = trim (text_of e), url = with_fragment (page_url p) (attr_id e),
                     snippet = heading_snippet, type = page_type p\<rparr>]))
   \<and> (str_includes (toLowerCase (trim (text_of e))) ql \<and> length (trim (text_of e)) > 50 \<longrightarrow>
        block_scan ql limit p pageTitle (e # es) rs =
          block_scan ql limit p pageTitle es
            (if list_ex (\<lambda>r. url r = block_url \<and> title r = block_title) rs then rs
             else rs @ [\<lparr>title = block_title, url = block_url,
                          snippet = substring0 (trim (text_of e)) 200, type = page_type p\<rparr>]))
   \<and> (str_includes (toLowerCase (trim (text_of e))) tm \<and> length (trim (text_of e)) > 20 \<longrightarrow>
        related_scan tm limit p (e # es) rs =
          related_scan tm limit p es
            (if list_ex (\<lambda>r. url r = with_fragment (page_url p) (attr_id e)
                              \<and> title r = related_title) rs then rs
             else rs @ [\<lparr>title = related_title, url = with_fragment (page_url p) (attr_id e),
                          snippet = substring0 (trim (text_of e)) 200, type = page_type p\<rparr>]))
   \<and> (attr_href e \<noteq> None \<and> attr_href e \<noteq> Some [] \<and> length (trim (text_of e)) \<ge> 3
        \<and> str_includes link_url DOC_DOMAIN
        \<and> (str_includes (toLowerCase (trim (text_of e))) ql
            \<or> str_includes (toLowerCase link_url) ql) \<longrightarrow>
        link_scan isMcp ql limit baseUrl p (e # es) rs =
          link_scan isMcp ql limit baseUrl p es
            (if list_ex (\<lambda>r. url r = link_url \<or> title r = trim (text_of e)) rs then rs
             else rs @ [\<lparr>title = trim (text_of e), url = link_url,
                          snippet = link_snippet e, type = page_type p\<rparr>]))"
proof (intro conjI impI)
  assume "str_includes (toLowerCase (trim (text_of e))) ql"
  with room show "heading_scan ql limit p (e # es) rs =
          heading_scan ql limit p es
            (rs @ [\<lparr>title = trim (text_of e), url = with_fragment (page_url p) (attr_id e),
                     snippet = heading_snippet, type = page_type p\<rparr>])"
    by (simp add: Let_def heading_snippet_def)
next
  assume "str_includes (toLowerCase (trim (text_of e))) ql \<and> length (trim (text_of e)) > 50"
  with room show "block_scan ql limit p pageTitle (e # es) rs =
          block_scan ql limit p pageTitle es
            (if list_ex (\<lambda>r. url r = block_url \<and> title r = block_title) rs then rs
             else rs @ [\<lparr>title = block_title, url = block_url,
                          snippet = substring0 (trim (text_of e)) 200, type = page_type p\<rparr>])"
    by (simp add: Let_def block_url_def block_title_def)
next
  assume "str_includes (toLowerCase (trim (text_of e))) tm \<and> length (trim (text_of e)) > 20"
  with room show "related_scan tm limit p (e # es) rs =
          related_scan tm limit p es
            (if list_ex (\<lambda>r. url r = with_fragment (page_url p) (attr_id e)
                              \<and> title r = related_title) rs then rs
             else rs @ [\<lparr>title = related_title, url = with_fragment (page_url p) (attr_id e),
                          snippet = substring0 (trim (text_of e)) 200, type = page_type p\<rparr>])"
    by (simp add: Let_def related_title_def)
next
  assume a: "attr_href e \<noteq> None \<and> attr_href e \<noteq> Some [] \<and> length (trim (text_of e)) \<ge> 3
        \<and> str_includes link_url DOC_DOMAIN
        \<and> (str_includes (toLowerCase (trim (text_of e))) ql
            \<or> str_includes (toLowerCase link_url) ql)"
  then obtain href where href: "attr_href e = Some href" "href \<noteq> []" by auto
  from a have t: "trim (text_of e) \<noteq> []" "\<not> length (trim (text_of e)) < 3" by auto
  from a href room t show "link_scan isMcp ql limit baseUrl p (e # es) rs =
          link_scan isMcp ql limit baseUrl p es
            (if list_ex (\<lambda>r. url r = link_url \<or> title r = trim (text_of e)) rs then rs
             else rs @ [\<lparr>title = trim (text_of e), url = link_url,
                          snippet = link_snippet e, type = page_type p\<rparr>])"
    by (simp add: Let_def link_url_def)
qed

theorem duplicate_checks_witness:
  "block_scan ''agent'' 5 guide_page [] [overview_block] [overview_entry] = [overview_entry]
   \<and> block_scan ''agent'' 5 guide_page [] [overview_block] [basics_entry]
       = [basics_entry, overview_entry]"
proof -
  have r: "(of_nat (length [overview_entry]) :: rat) < 5" "(of_nat (length [basics_entry]) :: rat) < 5"
    by simp_all
  note blocks1 = duplicate_checks[OF r(1), where e = overview_block and ql = "''agent''"
                   and p = guide_page and es = "[]" and pageTitle = "[]",
                   THEN conjunct2, THEN conjunct1, THEN mp, OF overview_block_candidate]
  note blocks2 = duplicate_checks[OF r(2), where e = overview_block and ql = "''agent''"
                   and p = guide_page and es = "[]" and pageTitle = "[]",
                   THEN conjunct2, THEN conjunct1, THEN mp, OF overview_block_candidate]
  from blocks1
  have 1: "block_scan ''agent'' 5 guide_page [] [overview_block] [overview_entry] = [overview_entry]"
    unfolding overview_block_fields by (simp add: overview_entry_def)
  from blocks2
  have 2: "block_scan ''agent'' 5 guide_page [] [overview_block] [basics_entry]
             = [basics_entry, overview_entry]"
    unfolding overview_block_fields by (simp add: overview_entry_def basics_entry_def)
  from 1 2 show ?thesis by simp
qed

end
